theory Spec2Isabelle
  imports Complex_Main "HOL-Library.AList"
begin

section \<open>The dot grid component\<close>

text \<open>
  The repository holds two variants of one component, \<open>DotGridHero\<close>: the file
  \<open>FRAMER_COMPONENT_dotGrid.tsx\<close> (with the trailing linger/fade) and an earlier file
  without it. Grid calculation, nearest-dot search, cluster indices and the colour
  helpers are the same text in both files and are embedded once.

  JavaScript numbers are embedded as \<open>real\<close> (and as \<open>int\<close> where the code has made
  them integral with \<open>Math.floor\<close>); the one place where the arithmetic leaves the
  finite numbers, a division by a zero cell pitch, is a \<open>None\<close> result.
\<close>

subsection \<open>Properties and state\<close>

text \<open>
  The properties after the destructuring defaults of the component have been applied;
  the properties the code reads through \<open>props.\<close> with a \<open>typeof ... === "number"\<close>
  test stay optional.
\<close>

record props =
  dotSize :: real
  gap :: real
  baseColor :: string
  activeColor :: string
  backgroundColor :: string
  circleRadius :: "real option"
  hoverSquareRadius :: "real option"
  hoverDotCount :: "real option"
  smoothIntensity :: "real option"
  trailEnabled :: bool
  trailHoldMs :: real
  trailFadeMs :: real

definition defaultProps :: props where
  "defaultProps =
     \<lparr>dotSize = 16, gap = 32, baseColor = ''#5227FF'', activeColor = ''#FFFFFF'',
      backgroundColor = ''rgba(0, 0, 0, 0)'', circleRadius = None,
      hoverSquareRadius = None, hoverDotCount = None, smoothIntensity = None,
      trailEnabled = False, trailHoldMs = 180, trailFadeMs = 520\<rparr>"

record dimensions =
  width :: real
  height :: real

type_synonym pointer = "(real \<times> real) option"

record dot =
  dot_x :: real
  dot_y :: real
  dot_col :: int
  dot_row :: int

record layout =
  cols :: int
  rows :: int
  grid :: "dot list"

subsection \<open>Grid calculation\<close>

definition gridRow :: "real \<Rightarrow> real \<Rightarrow> real \<Rightarrow> int \<Rightarrow> int \<Rightarrow> dot list" where
  "gridRow startX startY cell ncols row =
     map (\<lambda>col. \<lparr>dot_x = startX + of_int col * cell, dot_y = startY + of_int row * cell,
                 dot_col = col, dot_row = row\<rparr>) [0..ncols - 1]"

definition gridCalc :: "props \<Rightarrow> dimensions \<Rightarrow> layout option" where
  "gridCalc p sz =
     (let cell = dotSize p + gap p in
      if cell = 0 then None
      else
        let ncols = max 1 \<lfloor>(width sz + gap p) / cell\<rfloor>;
            nrows = max 1 \<lfloor>(height sz + gap p) / cell\<rfloor>;
            gridW = cell * of_int ncols - gap p;
            gridH = cell * of_int nrows - gap p;
            extraX = width sz - gridW;
            extraY = height sz - gridH;
            startX = extraX / 2 + dotSize p / 2;
            startY = extraY / 2 + dotSize p / 2
        in Some \<lparr>cols = ncols, rows = nrows,
                  grid = concat (map (gridRow startX startY cell ncols) [0..nrows - 1])\<rparr>)"

subsection \<open>Nearest dot\<close>

definition hypot :: "real \<Rightarrow> real \<Rightarrow> real" where
  "hypot a b = sqrt (a\<^sup>2 + b\<^sup>2)"

text \<open>
  \<open>pointerDist\<close> is \<open>Math.hypot(grid[i].x - hover.x, grid[i].y - hover.y)\<close>. The scan keeps
  \<open>minDist\<close> and \<open>idx\<close>; \<open>minDist\<close> starts at \<open>Infinity\<close>, which is \<open>None\<close> here: every
  distance is below it.
\<close>

definition pointerDist :: "real \<times> real \<Rightarrow> dot \<Rightarrow> real" where
  "pointerDist h e = hypot (dot_x e - fst h) (dot_y e - snd h)"

fun nearestStep :: "real \<times> real \<Rightarrow> real option \<times> int \<Rightarrow> nat \<times> dot \<Rightarrow> real option \<times> int" where
  "nearestStep h (minDist, idx) (i, e) =
     (let d = pointerDist h e in
      if (case minDist of None \<Rightarrow> True | Some m \<Rightarrow> d < m) then (Some d, int i)
      else (minDist, idx))"

definition hoveredDot :: "pointer \<Rightarrow> dot list \<Rightarrow> dot option" where
  "hoveredDot hover g =
     (case hover of
        None \<Rightarrow> None
      | Some h \<Rightarrow>
          (let (minDist, idx) = foldl (nearestStep h) (None, - 1) (enumerate 0 g) in
           if idx = - 1 then None else Some (g ! nat idx)))"

subsection \<open>Cluster indices\<close>

text \<open>A JavaScript \<open>Set\<close> keeps its members in insertion order, each once.\<close>

definition set_add :: "int \<Rightarrow> int list \<Rightarrow> int list" where
  "set_add v s = (if v \<in> set s then s else s @ [v])"

definition hoverCount :: "props \<Rightarrow> real" where
  "hoverCount p = (case hoverDotCount p of Some n \<Rightarrow> n | None \<Rightarrow> 5)"

definition activeSet :: "props \<Rightarrow> dot option \<Rightarrow> int \<Rightarrow> int \<Rightarrow> int list" where
  "activeSet p hovered ncols nrows =
     (case hovered of
        None \<Rightarrow> []
      | Some hov \<Rightarrow>
          (let count = hoverCount p;
               hoverRadius = \<lfloor>count / 2\<rfloor>
           in fold (\<lambda>dr s.
                 fold (\<lambda>dc s.
                    let r = dot_row hov + dr; c = dot_col hov + dc in
                    if r < 0 \<or> r \<ge> nrows \<or> c < 0 \<or> c \<ge> ncols then s
                    else set_add (r * ncols + c) s)
                  [- hoverRadius..hoverRadius] s)
               [- hoverRadius..hoverRadius] []))"

subsection \<open>Colour helpers\<close>

record rgb =
  rgb_r :: real
  rgb_g :: real
  rgb_b :: real

definition isHexDigit :: "char \<Rightarrow> bool" where
  "isHexDigit c = (c \<in> set ''0123456789abcdefABCDEF'')"

text \<open>
  The match of \<open>/^#?([a-f\d]{2})([a-f\d]{2})([a-f\d]{2})$/i\<close>: the three groups, when
  the string is six hexadecimal digits after an optional \<open>#\<close>.
\<close>

definition hexMatch :: "string \<Rightarrow> (string \<times> string \<times> string) option" where
  "hexMatch hex =
     (let body = (case hex of c # cs \<Rightarrow> if c = CHR ''#'' then cs else hex | [] \<Rightarrow> hex) in
      if length body = 6 \<and> list_all isHexDigit body
      then Some (take 2 body, take 2 (drop 2 body), drop 4 body)
      else None)"

definition digitVal :: "char \<Rightarrow> nat" where
  "digitVal c =
     (let n = (of_char c :: nat) in
      if 48 \<le> n \<and> n \<le> 57 then n - 48
      else if 97 \<le> n \<and> n \<le> 102 then n - 87
      else n - 55)"

definition parseInt16 :: "string \<Rightarrow> nat" where
  "parseInt16 s = foldl (\<lambda>acc c. 16 * acc + digitVal c) 0 s"

definition hexToRgb :: "string \<Rightarrow> rgb" where
  "hexToRgb hex =
     (case hexMatch hex of
        None \<Rightarrow> \<lparr>rgb_r = 0, rgb_g = 0, rgb_b = 0\<rparr>
      | Some (m1, m2, m3) \<Rightarrow>
          \<lparr>rgb_r = real (parseInt16 m1), rgb_g = real (parseInt16 m2),
           rgb_b = real (parseInt16 m3)\<rparr>)"

definition hexChar :: "nat \<Rightarrow> char" where
  "hexChar n = ''0123456789abcdef'' ! n"

fun toString16 :: "nat \<Rightarrow> string" where
  "toString16 n = (if n < 16 then [hexChar n] else toString16 (n div 16) @ [hexChar (n mod 16)])"

definition padStart :: "nat \<Rightarrow> char \<Rightarrow> string \<Rightarrow> string" where
  "padStart n c s = replicate (n - length s) c @ s"

text \<open>
  The callback of \<open>rgbToHex\<close>: \<open>v = Math.max(0, Math.min(255, Math.round(x)))\<close>, then
  \<open>v.toString(16).padStart(2, "0")\<close>. \<open>Math.round\<close> rounds half up, as \<open>round\<close> does.
\<close>

definition clampByte :: "real \<Rightarrow> nat" where
  "clampByte x = nat (max 0 (min 255 (round x)))"

definition channelHex :: "real \<Rightarrow> string" where
  "channelHex x = (let v = clampByte x in padStart 2 (CHR ''0'') (toString16 v))"

definition rgbToHex :: "rgb \<Rightarrow> string" where
  "rgbToHex c = CHR ''#'' # concat (map channelHex [rgb_r c, rgb_g c, rgb_b c])"

definition blend :: "string \<Rightarrow> string \<Rightarrow> real \<Rightarrow> string" where
  "blend a b t =
     (let ca = hexToRgb a; cb = hexToRgb b in
      rgbToHex \<lparr>rgb_r = rgb_r ca + (rgb_r cb - rgb_r ca) * t,
                rgb_g = rgb_g ca + (rgb_g cb - rgb_g ca) * t,
                rgb_b = rgb_b ca + (rgb_b cb - rgb_b ca) * t\<rparr>)"

subsection \<open>Rendering, shared parts\<close>

record circle =
  circle_cx :: real
  circle_cy :: real
  circle_r :: real
  circle_fill :: string
  circle_transition :: string
  circle_willChange :: "string option"

definition intensityOf :: "props \<Rightarrow> real" where
  "intensityOf p = (case smoothIntensity p of Some v \<Rightarrow> v | None \<Rightarrow> 95 / 100)"

definition baseRadiusOf :: "props \<Rightarrow> real" where
  "baseRadiusOf p = (case circleRadius p of Some v \<Rightarrow> v | None \<Rightarrow> dotSize p / 2)"

definition isHoverActive :: "pointer \<Rightarrow> int list \<Rightarrow> dot option \<Rightarrow> nat \<Rightarrow> bool" where
  "isHoverActive hover aset hovered i = (hover \<noteq> None \<and> int i \<in> set aset \<and> hovered \<noteq> None)"

text \<open>The distance-based scale of the hover branch, the same expression in both files.\<close>

definition hoverScale :: "props \<Rightarrow> dot \<Rightarrow> dot \<Rightarrow> real" where
  "hoverScale p d hov =
     (let dRow = \<bar>dot_row d - dot_row hov\<bar>;
          dCol = \<bar>dot_col d - dot_col hov\<bar>;
          dist = max dRow dCol;
          maxDist = \<lfloor>hoverCount p / 2\<rfloor>;
          t = 1 - of_int dist / (if maxDist = 0 then 1 else of_int maxDist);
          intensity = intensityOf p
      in 1 + intensity * max 0 t)"

subsection \<open>The component without trailing\<close>

definition circlePlain :: "props \<Rightarrow> pointer \<Rightarrow> int list \<Rightarrow> dot option \<Rightarrow> nat \<times> dot \<Rightarrow> circle" where
  "circlePlain p hover aset hovered =
     (\<lambda>(i, d).
        let (scale, color) =
              (case hovered of
                 Some hov \<Rightarrow>
                   if isHoverActive hover aset hovered i then (hoverScale p d hov, activeColor p)
                   else (1, baseColor p)
               | None \<Rightarrow> (1, baseColor p));
            baseRadius = baseRadiusOf p
        in \<lparr>circle_cx = dot_x d, circle_cy = dot_y d, circle_r = baseRadius * scale,
            circle_fill = color,
            circle_transition =
              (if hover \<noteq> None
               then ''r 0.22s cubic-bezier(.4,1.2,.4,1), fill 0.18s cubic-bezier(.4,1.2,.4,1)''
               else ''none''),
            circle_willChange = (if hover \<noteq> None then Some ''r, fill'' else None)\<rparr>)"

definition DotGridHero_plain :: "props \<Rightarrow> dimensions \<Rightarrow> pointer \<Rightarrow> circle list option" where
  "DotGridHero_plain p sz hover =
     (case gridCalc p sz of
        None \<Rightarrow> None
      | Some L \<Rightarrow>
          (let hovered = hoveredDot hover (grid L);
               aset = activeSet p hovered (cols L) (rows L)
           in Some (map (circlePlain p hover aset hovered) (enumerate 0 (grid L)))))"

subsection \<open>The trail clock\<close>

text \<open>
  \<open>lastHitRef\<close> is a JavaScript \<open>Map\<close>: an association list in insertion order, a key
  set again keeps its place. \<open>frames\<close> are the animation-frame callbacks the host
  holds, requested and neither run nor cancelled yet.
\<close>

record clock =
  lastHitRef :: "(int \<times> real) list"
  now :: real
  rafRef :: "nat option"
  frames :: "nat list"
  nextFrame :: nat

definition initialClock :: clock where
  "initialClock = \<lparr>lastHitRef = [], now = 0, rafRef = None, frames = [], nextFrame = 0\<rparr>"

definition requestAnimationFrame :: "clock \<Rightarrow> nat \<times> clock" where
  "requestAnimationFrame c =
     (let h = Suc (nextFrame c) in (h, c\<lparr>frames := frames c @ [h], nextFrame := h\<rparr>))"

definition cancelAnimationFrame :: "nat \<Rightarrow> clock \<Rightarrow> clock" where
  "cancelAnimationFrame h c = c\<lparr>frames := removeAll h (frames c)\<rparr>"

text \<open>\<open>if (rafRef.current) cancelAnimationFrame(rafRef.current); rafRef.current = null\<close>\<close>

definition cancelPending :: "clock \<Rightarrow> clock" where
  "cancelPending c =
     (let c1 = (case rafRef c of
                  None \<Rightarrow> c
                | Some h \<Rightarrow> if h = 0 then c else cancelAnimationFrame h c)
      in c1\<lparr>rafRef := None\<rparr>)"

text \<open>The effect that stamps the cluster while the pointer is present.\<close>

definition hitEffect :: "props \<Rightarrow> pointer \<Rightarrow> int list \<Rightarrow> real \<Rightarrow> clock \<Rightarrow> clock" where
  "hitEffect p hover aset t c =
     (if \<not> trailEnabled p then c
      else if hover = None then c
      else c\<lparr>lastHitRef := fold (\<lambda>idx m. AList.update idx t m) aset (lastHitRef c), now := t\<rparr>)"

text \<open>The effect that clears lingering state when the trail is off.\<close>

definition clearEffect :: "props \<Rightarrow> clock \<Rightarrow> clock" where
  "clearEffect p c = (if trailEnabled p then c else c\<lparr>lastHitRef := [], now := 0\<rparr>)"

text \<open>
  One run of the callback \<open>tick\<close> at time \<open>t\<close> (the value of \<open>performance.now()\<close>);
  \<open>mounted\<close>, \<open>p\<close> and \<open>hover\<close> are the variables of the effect's closure. The host
  has taken the callback out of \<open>frames\<close> before it runs it.
\<close>

definition evict :: "props \<Rightarrow> real \<Rightarrow> (int \<times> real) list \<Rightarrow> (int \<times> real) list" where
  "evict p t m =
     (let hold = max 0 (trailHoldMs p);
          fade = max 0 (trailFadeMs p);
          expire = hold + fade
      in if expire \<le> 0 then []
         else filter (\<lambda>(idx, hit). \<not> (t - hit > expire)) m)"

definition tick :: "bool \<Rightarrow> props \<Rightarrow> pointer \<Rightarrow> real \<Rightarrow> clock \<Rightarrow> clock" where
  "tick mounted p hover t c =
     (if \<not> mounted then c
      else
        let c1 = c\<lparr>now := t\<rparr>;
            c2 = c1\<lparr>lastHitRef := evict p t (lastHitRef c1)\<rparr>;
            stillNeeded = (trailEnabled p \<and> (hover \<noteq> None \<or> length (lastHitRef c2) > 0))
        in if stillNeeded
           then (let (h, c3) = requestAnimationFrame c2 in c3\<lparr>rafRef := Some h\<rparr>)
           else c2\<lparr>rafRef := None\<rparr>)"

text \<open>The host runs the oldest callback it holds.\<close>

definition runFrame :: "bool \<Rightarrow> props \<Rightarrow> pointer \<Rightarrow> real \<Rightarrow> clock \<Rightarrow> clock" where
  "runFrame mounted p hover t c =
     (case frames c of
        [] \<Rightarrow> c
      | h # rest \<Rightarrow> tick mounted p hover t (c\<lparr>frames := rest\<rparr>))"

text \<open>The body of the clock effect, and its cleanup.\<close>

definition clockEffect :: "bool \<Rightarrow> props \<Rightarrow> pointer \<Rightarrow> clock \<Rightarrow> clock" where
  "clockEffect isStatic p hover c =
     (if isStatic then c
      else
        let shouldRun = (trailEnabled p \<and> (hover \<noteq> None \<or> length (lastHitRef c) > 0)) in
        if \<not> shouldRun then cancelPending c
        else (let (h, c1) = requestAnimationFrame c in c1\<lparr>rafRef := Some h\<rparr>))"

definition clockCleanup :: "clock \<Rightarrow> clock" where
  "clockCleanup c = cancelPending c"

subsection \<open>The component with trailing\<close>

definition getTrailLevel :: "props \<Rightarrow> (int \<times> real) list \<Rightarrow> real \<Rightarrow> int \<Rightarrow> real" where
  "getTrailLevel p lastHit nowv i =
     (if \<not> trailEnabled p then 0
      else case map_of lastHit i of
        None \<Rightarrow> 0
      | Some hit \<Rightarrow>
          (let hold = max 0 (trailHoldMs p);
               fade = max 0 (trailFadeMs p);
               elapsed = nowv - hit
           in if elapsed \<le> hold then 1
              else if fade \<le> 0 then 0
              else (let t = (elapsed - hold) / fade in max 0 (min 1 (1 - t)))))"

definition circleTrail ::
  "props \<Rightarrow> pointer \<Rightarrow> int list \<Rightarrow> dot option \<Rightarrow> (int \<times> real) list \<Rightarrow> real \<Rightarrow> nat \<times> dot \<Rightarrow> circle" where
  "circleTrail p hover aset hovered lastHit nowv =
     (\<lambda>(i, d).
        let baseRadius = baseRadiusOf p;
            trailing = (let level = getTrailLevel p lastHit nowv (int i) in
                        (level, if level > 0 then 1 + intensityOf p else 1));
            (level, scaleTarget) =
              (case hovered of
                 Some hov \<Rightarrow>
                   if isHoverActive hover aset hovered i then (1, hoverScale p d hov)
                   else trailing
               | None \<Rightarrow> trailing);
            color = (if level > 0 then blend (baseColor p) (activeColor p) level else baseColor p);
            scale = 1 + (scaleTarget - 1) * level;
            r = baseRadius * scale;
            useTransition = (hover \<noteq> None \<or> (trailEnabled p \<and> length lastHit > 0))
        in \<lparr>circle_cx = dot_x d, circle_cy = dot_y d, circle_r = r, circle_fill = color,
            circle_transition =
              (if useTransition
               then ''r 0.18s cubic-bezier(.4,1.2,.4,1), fill 0.14s cubic-bezier(.4,1.2,.4,1)''
               else ''none''),
            circle_willChange = (if useTransition then Some ''r, fill'' else None)\<rparr>)"

definition DotGridHero ::
  "props \<Rightarrow> dimensions \<Rightarrow> pointer \<Rightarrow> clock \<Rightarrow> circle list option" where
  "DotGridHero p sz hover c =
     (case gridCalc p sz of
        None \<Rightarrow> None
      | Some L \<Rightarrow>
          (let hovered = hoveredDot hover (grid L);
               aset = activeSet p hovered (cols L) (rows L)
           in Some (map (circleTrail p hover aset hovered (lastHitRef c) (now c))
                      (enumerate 0 (grid L)))))"

section \<open>The grid layout\<close>

lemma nth_concat_uniform:
  assumes "\<forall>xs\<in>set xss. length xs = n" "r < length xss" "c < n"
  shows "concat xss ! (r * n + c) = xss ! r ! c"
  using assms
proof (induction xss arbitrary: r)
  case Nil
  then show ?case by simp
next
  case (Cons xs xss)
  then have len: "length xs = n" by simp
  show ?case
  proof (cases r)
    case 0
    with Cons.prems len show ?thesis by (simp add: nth_append)
  next
    case (Suc r')
    with Cons.prems have "concat xss ! (r' * n + c) = xss ! r' ! c"
      by (intro Cons.IH) simp_all
    with Suc len show ?thesis by (simp add: nth_append)
  qed
qed

lemma length_concat_uniform:
  "\<forall>xs\<in>set xss. length xs = n \<Longrightarrow> length (concat xss) = length xss * n"
  by (induction xss) simp_all

lemma length_gridRow: "1 \<le> nc \<Longrightarrow> length (gridRow sx sy cell nc r) = nat nc"
  by (simp add: gridRow_def)

lemma nth_gridRow:
  assumes "0 \<le> c" "c < nc"
  shows "gridRow sx sy cell nc r ! nat c =
    \<lparr>dot_x = sx + of_int c * cell, dot_y = sy + of_int r * cell, dot_col = c, dot_row = r\<rparr>"
proof -
  from assms have "nat c < length [0..nc - 1]" by simp
  moreover from assms have "[0..nc - 1] ! nat c = c" by simp
  ultimately show ?thesis by (simp add: gridRow_def)
qed

lemma grid_rows_length:
  assumes "1 \<le> nc" "1 \<le> nr"
  shows "int (length (concat (map (gridRow sx sy cell nc) [0..nr - 1]))) = nc * nr"
proof -
  have "\<forall>xs\<in>set (map (gridRow sx sy cell nc) [0..nr - 1]). length xs = nat nc"
    using assms by (simp add: length_gridRow)
  then have "length (concat (map (gridRow sx sy cell nc) [0..nr - 1]))
      = length (map (gridRow sx sy cell nc) [0..nr - 1]) * nat nc"
    by (rule length_concat_uniform)
  with assms show ?thesis by (simp add: mult.commute)
qed

lemma grid_rows_nth:
  assumes "1 \<le> nc" "1 \<le> nr" "0 \<le> r" "r < nr" "0 \<le> c" "c < nc"
  shows "concat (map (gridRow sx sy cell nc) [0..nr - 1]) ! nat (r * nc + c) =
    \<lparr>dot_x = sx + of_int c * cell, dot_y = sy + of_int r * cell, dot_col = c, dot_row = r\<rparr>"
proof -
  let ?xss = "map (gridRow sx sy cell nc) [0..nr - 1]"
  have u: "\<forall>xs\<in>set ?xss. length xs = nat nc"
    using assms by (simp add: length_gridRow)
  from assms have r: "nat r < length ?xss" by simp
  from assms have c: "nat c < nat nc" by simp
  from assms have idx: "nat (r * nc + c) = nat r * nat nc + nat c"
    by (simp add: nat_add_distrib nat_mult_distrib)
  from assms have "[0..nr - 1] ! nat r = r" by simp
  with r have row: "?xss ! nat r = gridRow sx sy cell nc r" by simp
  have "concat ?xss ! (nat r * nat nc + nat c) = ?xss ! nat r ! nat c"
    using u r c by (rule nth_concat_uniform)
  with idx row show ?thesis using assms by (simp add: nth_gridRow)
qed


lemma gridCalc_Some:
  assumes "dotSize p + gap p \<noteq> 0"
  shows "gridCalc p sz =
    Some \<lparr>cols = max 1 \<lfloor>(width sz + gap p) / (dotSize p + gap p)\<rfloor>,
          rows = max 1 \<lfloor>(height sz + gap p) / (dotSize p + gap p)\<rfloor>,
          grid = concat (map (gridRow
            ((width sz - ((dotSize p + gap p) * of_int (max 1 \<lfloor>(width sz + gap p) / (dotSize p + gap p)\<rfloor>) - gap p)) / 2
               + dotSize p / 2)
            ((height sz - ((dotSize p + gap p) * of_int (max 1 \<lfloor>(height sz + gap p) / (dotSize p + gap p)\<rfloor>) - gap p)) / 2
               + dotSize p / 2)
            (dotSize p + gap p) (max 1 \<lfloor>(width sz + gap p) / (dotSize p + gap p)\<rfloor>))
            [0..max 1 \<lfloor>(height sz + gap p) / (dotSize p + gap p)\<rfloor> - 1])\<rparr>"
  using assms by (simp add: gridCalc_def Let_def)

lemma zero_size_count:
  fixes g s :: real
  assumes "0 \<le> s" "0 \<le> g" "s + g \<noteq> 0"
  shows "max 1 \<lfloor>g / (s + g)\<rfloor> = 1"
proof -
  from assms have pos: "0 < s + g" by simp
  with assms have "g / (s + g) \<le> 1" by (simp add: divide_le_eq)
  then have "\<lfloor>g / (s + g)\<rfloor> \<le> 1" by (simp add: floor_le_iff)
  then show ?thesis by simp
qed

text \<open>
  Claim C1. For a cell pitch \<open>cell = dotSize + gap\<close> other than 0 and every container
  size, the grid calculation returns \<open>cols = max 1 \<lfloor>(width + gap) / cell\<rfloor>\<close> and
  \<open>rows = max 1 \<lfloor>(height + gap) / cell\<rfloor>\<close>, both at least 1, and \<open>cols * rows\<close> dots in
  row-major order: the dot at index \<open>r * cols + c\<close> is the dot of row \<open>r\<close> and column \<open>c\<close>,
  with centre \<open>((width - (cell * cols - gap)) / 2 + dotSize / 2 + c * cell,
  (height - (cell * rows - gap)) / 2 + dotSize / 2 + r * cell)\<close>. A container of size zero
  gives the grid of one dot (for a dot size and a gap that are not negative).
\<close>

theorem grid_layout:
  assumes cell: "dotSize p + gap p \<noteq> 0"
  shows "\<exists>L. gridCalc p sz = Some L
    \<and> cols L = max 1 \<lfloor>(width sz + gap p) / (dotSize p + gap p)\<rfloor>
    \<and> rows L = max 1 \<lfloor>(height sz + gap p) / (dotSize p + gap p)\<rfloor>
    \<and> 1 \<le> cols L \<and> 1 \<le> rows L
    \<and> int (length (grid L)) = cols L * rows L
    \<and> (\<forall>r c. 0 \<le> r \<and> r < rows L \<and> 0 \<le> c \<and> c < cols L \<longrightarrow>
          grid L ! nat (r * cols L + c) =
            \<lparr>dot_x = (width sz - ((dotSize p + gap p) * of_int (cols L) - gap p)) / 2
                      + dotSize p / 2 + of_int c * (dotSize p + gap p),
             dot_y = (height sz - ((dotSize p + gap p) * of_int (rows L) - gap p)) / 2
                      + dotSize p / 2 + of_int r * (dotSize p + gap p),
             dot_col = c, dot_row = r\<rparr>)
    \<and> (0 \<le> dotSize p \<and> 0 \<le> gap p \<and> width sz = 0 \<and> height sz = 0 \<longrightarrow>
          cols L = 1 \<and> rows L = 1 \<and> length (grid L) = 1)"
proof -
  define nc where "nc = max 1 \<lfloor>(width sz + gap p) / (dotSize p + gap p)\<rfloor>"
  define nr where "nr = max 1 \<lfloor>(height sz + gap p) / (dotSize p + gap p)\<rfloor>"
  define sx where "sx = (width sz - ((dotSize p + gap p) * of_int nc - gap p)) / 2 + dotSize p / 2"
  define sy where "sy = (height sz - ((dotSize p + gap p) * of_int nr - gap p)) / 2 + dotSize p / 2"
  define L where "L = \<lparr>cols = nc, rows = nr,
      grid = concat (map (gridRow sx sy (dotSize p + gap p) nc) [0..nr - 1])\<rparr>"
  have ge: "1 \<le> nc" "1 \<le> nr" by (simp_all add: nc_def nr_def)
  have sel: "cols L = nc" "rows L = nr"
    "grid L = concat (map (gridRow sx sy (dotSize p + gap p) nc) [0..nr - 1])"
    by (simp_all add: L_def)
  have calc: "gridCalc p sz = Some L"
    unfolding L_def sx_def sy_def nc_def nr_def using cell by (rule gridCalc_Some)
  have len: "int (length (grid L)) = cols L * rows L"
    unfolding sel using ge by (rule grid_rows_length)
  have nth: "\<forall>r c. 0 \<le> r \<and> r < rows L \<and> 0 \<le> c \<and> c < cols L \<longrightarrow>
          grid L ! nat (r * cols L + c) =
            \<lparr>dot_x = (width sz - ((dotSize p + gap p) * of_int (cols L) - gap p)) / 2
                      + dotSize p / 2 + of_int c * (dotSize p + gap p),
             dot_y = (height sz - ((dotSize p + gap p) * of_int (rows L) - gap p)) / 2
                      + dotSize p / 2 + of_int r * (dotSize p + gap p),
             dot_col = c, dot_row = r\<rparr>"
  proof (intro allI impI)
    fix r c assume "0 \<le> r \<and> r < rows L \<and> 0 \<le> c \<and> c < cols L"
    then have b: "0 \<le> r" "r < nr" "0 \<le> c" "c < nc" by (simp_all add: sel)
    have "grid L ! nat (r * nc + c) =
        \<lparr>dot_x = sx + of_int c * (dotSize p + gap p), dot_y = sy + of_int r * (dotSize p + gap p),
         dot_col = c, dot_row = r\<rparr>"
      unfolding sel using ge b by (rule grid_rows_nth)
    then show "grid L ! nat (r * cols L + c) =
            \<lparr>dot_x = (width sz - ((dotSize p + gap p) * of_int (cols L) - gap p)) / 2
                      + dotSize p / 2 + of_int c * (dotSize p + gap p),
             dot_y = (height sz - ((dotSize p + gap p) * of_int (rows L) - gap p)) / 2
                      + dotSize p / 2 + of_int r * (dotSize p + gap p),
             dot_col = c, dot_row = r\<rparr>"
      by (simp add: sel sx_def sy_def)
  qed
  have zero: "0 \<le> dotSize p \<and> 0 \<le> gap p \<and> width sz = 0 \<and> height sz = 0 \<longrightarrow>
          cols L = 1 \<and> rows L = 1 \<and> length (grid L) = 1"
  proof
    assume a: "0 \<le> dotSize p \<and> 0 \<le> gap p \<and> width sz = 0 \<and> height sz = 0"
    with cell have "max 1 \<lfloor>gap p / (dotSize p + gap p)\<rfloor> = 1"
      by (intro zero_size_count) simp_all
    with a have one: "nc = 1" "nr = 1" by (simp_all add: nc_def nr_def)
    with len show "cols L = 1 \<and> rows L = 1 \<and> length (grid L) = 1" by (simp add: sel)
  qed
  have c1: "cols L = max 1 \<lfloor>(width sz + gap p) / (dotSize p + gap p)\<rfloor>"
    and r1: "rows L = max 1 \<lfloor>(height sz + gap p) / (dotSize p + gap p)\<rfloor>"
    by (simp_all add: sel nc_def nr_def)
  have ge': "1 \<le> cols L" "1 \<le> rows L" using ge by (simp_all add: sel)
  show ?thesis
    by (rule exI [of _ L]) (intro conjI calc c1 r1 ge' len nth zero)
qed


theorem grid_layout_witness:
  "(\<exists>L. gridCalc defaultProps \<lparr>width = 400, height = 400\<rparr> = Some L
      \<and> cols L = 9 \<and> rows L = 9 \<and> length (grid L) = 81
      \<and> grid L ! 0 = \<lparr>dot_x = 8, dot_y = 8, dot_col = 0, dot_row = 0\<rparr>
      \<and> grid L ! 40 = \<lparr>dot_x = 200, dot_y = 200, dot_col = 4, dot_row = 4\<rparr>
      \<and> grid L ! 80 = \<lparr>dot_x = 392, dot_y = 392, dot_col = 8, dot_row = 8\<rparr>)
   \<and> (\<exists>L. gridCalc defaultProps \<lparr>width = 0, height = 0\<rparr> = Some L
      \<and> cols L = 1 \<and> rows L = 1 \<and> length (grid L) = 1
      \<and> grid L ! 0 = \<lparr>dot_x = 0, dot_y = 0, dot_col = 0, dot_row = 0\<rparr>)"
proof -
  have v: "dotSize defaultProps = 16" "gap defaultProps = 32" by (simp_all add: defaultProps_def)
  have cell: "dotSize defaultProps + gap defaultProps \<noteq> 0" by (simp add: v)
  from grid_layout [OF cell, of "\<lparr>width = 400, height = 400\<rparr>"]
  obtain L where L: "gridCalc defaultProps \<lparr>width = 400, height = 400\<rparr> = Some L"
    "cols L = 9" "rows L = 9" "int (length (grid L)) = cols L * rows L"
    and nth: "\<And>r c. 0 \<le> r \<and> r < rows L \<and> 0 \<le> c \<and> c < cols L \<Longrightarrow>
          grid L ! nat (r * cols L + c) =
            \<lparr>dot_x = (400 - (48 * of_int (cols L) - 32)) / 2 + 8 + of_int c * 48,
             dot_y = (400 - (48 * of_int (rows L) - 32)) / 2 + 8 + of_int r * 48,
             dot_col = c, dot_row = r\<rparr>"
    by (auto simp add: v)
  from L have len: "length (grid L) = 81" by simp
  from nth [of 0 0] nth [of 4 4] nth [of 8 8] L(2,3)
  have dots: "grid L ! 0 = \<lparr>dot_x = 8, dot_y = 8, dot_col = 0, dot_row = 0\<rparr>"
    "grid L ! 40 = \<lparr>dot_x = 200, dot_y = 200, dot_col = 4, dot_row = 4\<rparr>"
    "grid L ! 80 = \<lparr>dot_x = 392, dot_y = 392, dot_col = 8, dot_row = 8\<rparr>"
    by simp_all
  from grid_layout [OF cell, of "\<lparr>width = 0, height = 0\<rparr>"]
  obtain Z where Z: "gridCalc defaultProps \<lparr>width = 0, height = 0\<rparr> = Some Z"
    "cols Z = 1" "rows Z = 1" "length (grid Z) = 1"
    and nthZ: "\<And>r c. 0 \<le> r \<and> r < rows Z \<and> 0 \<le> c \<and> c < cols Z \<Longrightarrow>
          grid Z ! nat (r * cols Z + c) =
            \<lparr>dot_x = (0 - (48 * of_int (cols Z) - 32)) / 2 + 8 + of_int c * 48,
             dot_y = (0 - (48 * of_int (rows Z) - 32)) / 2 + 8 + of_int r * 48,
             dot_col = c, dot_row = r\<rparr>"
    by (auto simp add: v)
  from nthZ [of 0 0] Z(2,3)
  have dotZ: "grid Z ! 0 = \<lparr>dot_x = 0, dot_y = 0, dot_col = 0, dot_row = 0\<rparr>" by simp
  from L(1-3) len dots Z dotZ show ?thesis by blast
qed

section \<open>The nearest dot\<close>

lemma nearestStep_eq:
  "nearestStep h (minDist, idx) (i, e) =
     (if (case minDist of None \<Rightarrow> True | Some m \<Rightarrow> pointerDist h e < m)
      then (Some (pointerDist h e), int i) else (minDist, idx))"
  by (simp add: Let_def)

lemma scan_Nil: "foldl (nearestStep h) (None, - 1) (enumerate 0 []) = (None, - 1)"
  by simp

lemma scan_first_minimum:
  assumes "g \<noteq> []"
  shows "\<exists>k<length g. foldl (nearestStep h) (None, - 1) (enumerate 0 g) = (Some (pointerDist h (g ! k)), int k)
      \<and> (\<forall>j<length g. pointerDist h (g ! k) \<le> pointerDist h (g ! j))
      \<and> (\<forall>j<k. pointerDist h (g ! k) < pointerDist h (g ! j))"
  using assms
proof (induction g rule: rev_induct)
  case Nil
  then show ?case by simp
next
  case (snoc e g)
  let ?n = "length g"
  have en: "enumerate 0 (g @ [e]) = enumerate 0 g @ [(?n, e)]"
    by (simp add: enumerate_append_eq)
  show ?case
  proof (cases "g = []")
    case True
    then have "foldl (nearestStep h) (None, - 1) (enumerate 0 (g @ [e])) = (Some (pointerDist h e), int 0)"
      by (simp add: nearestStep_eq)
    with True show ?thesis by simp
  next
    case False
    with snoc.IH obtain k where k: "k < ?n"
      "foldl (nearestStep h) (None, - 1) (enumerate 0 g) = (Some (pointerDist h (g ! k)), int k)"
      "\<forall>j<?n. pointerDist h (g ! k) \<le> pointerDist h (g ! j)"
      "\<forall>j<k. pointerDist h (g ! k) < pointerDist h (g ! j)"
      by blast
    have old: "\<And>j. j < ?n \<Longrightarrow> (g @ [e]) ! j = g ! j" by (simp add: nth_append)
    have new: "(g @ [e]) ! ?n = e" by simp
    show ?thesis
    proof (cases "pointerDist h e < pointerDist h (g ! k)")
      case True
      then have res: "foldl (nearestStep h) (None, - 1) (enumerate 0 (g @ [e]))
          = (Some (pointerDist h ((g @ [e]) ! ?n)), int ?n)"
        by (simp add: en k(2) nearestStep_eq)
      have a: "\<forall>j<length (g @ [e]). pointerDist h ((g @ [e]) ! ?n) \<le> pointerDist h ((g @ [e]) ! j)"
      proof (intro allI impI)
        fix j assume "j < length (g @ [e])"
        then consider "j < ?n" | "j = ?n" by fastforce
        then show "pointerDist h ((g @ [e]) ! ?n) \<le> pointerDist h ((g @ [e]) ! j)"
        proof cases
          case 1
          with k(3) have "pointerDist h (g ! k) \<le> pointerDist h (g ! j)" by simp
          with True 1 show ?thesis by (simp add: old)
        next
          case 2
          then show ?thesis by simp
        qed
      qed
      have b: "\<forall>j<?n. pointerDist h ((g @ [e]) ! ?n) < pointerDist h ((g @ [e]) ! j)"
      proof (intro allI impI)
        fix j assume j: "j < ?n"
        with k(3) have "pointerDist h (g ! k) \<le> pointerDist h (g ! j)" by simp
        with True j show "pointerDist h ((g @ [e]) ! ?n) < pointerDist h ((g @ [e]) ! j)"
          by (simp add: old)
      qed
      from res a b show ?thesis by (intro exI [of _ ?n]) simp
    next
      case False
      then have res: "foldl (nearestStep h) (None, - 1) (enumerate 0 (g @ [e]))
          = (Some (pointerDist h ((g @ [e]) ! k)), int k)"
        using k(1) by (simp add: en k(2) nearestStep_eq old)
      have a: "\<forall>j<length (g @ [e]). pointerDist h ((g @ [e]) ! k) \<le> pointerDist h ((g @ [e]) ! j)"
      proof (intro allI impI)
        fix j assume "j < length (g @ [e])"
        then consider "j < ?n" | "j = ?n" by fastforce
        then show "pointerDist h ((g @ [e]) ! k) \<le> pointerDist h ((g @ [e]) ! j)"
        proof cases
          case 1
          with k(1,3) show ?thesis by (simp add: old)
        next
          case 2
          with False k(1) show ?thesis by (simp add: old)
        qed
      qed
      have b: "\<forall>j<k. pointerDist h ((g @ [e]) ! k) < pointerDist h ((g @ [e]) ! j)"
        using k(1,4) by (simp add: old)
      from res a b k(1) show ?thesis by (intro exI [of _ k]) simp
    qed
  qed
qed

lemma hoveredDot_first_minimum:
  assumes "g \<noteq> []"
  shows "\<exists>k<length g. hoveredDot (Some h) g = Some (g ! k)
      \<and> (\<forall>j<length g. pointerDist h (g ! k) \<le> pointerDist h (g ! j))
      \<and> (\<forall>j<k. pointerDist h (g ! k) < pointerDist h (g ! j))"
proof -
  from scan_first_minimum [OF assms, of h] obtain k where k: "k < length g"
    "foldl (nearestStep h) (None, - 1) (enumerate 0 g) = (Some (pointerDist h (g ! k)), int k)"
    "\<forall>j<length g. pointerDist h (g ! k) \<le> pointerDist h (g ! j)"
    "\<forall>j<k. pointerDist h (g ! k) < pointerDist h (g ! j)"
    by blast
  from k(2) have "hoveredDot (Some h) g = Some (g ! k)"
    by (simp add: hoveredDot_def)
  with k show ?thesis by blast
qed

lemma hoveredDot_absent: "hoveredDot None g = None" "hoveredDot hover [] = None"
  by (simp_all add: hoveredDot_def split: option.split)


lemma grid_rows_nth_index:
  assumes nc: "1 \<le> nc" and nr: "1 \<le> nr" and j: "j < length (concat (map (gridRow sx sy cell nc) [0..nr - 1]))"
  shows "concat (map (gridRow sx sy cell nc) [0..nr - 1]) ! j =
    \<lparr>dot_x = sx + of_int (int j mod nc) * cell, dot_y = sy + of_int (int j div nc) * cell,
     dot_col = int j mod nc, dot_row = int j div nc\<rparr>"
proof -
  from grid_rows_length [OF nc nr, of sx sy cell] j have lt: "int j < nc * nr" by simp
  define r where "r = int j div nc"
  define c where "c = int j mod nc"
  from nc have c: "0 \<le> c" "c < nc" by (simp_all add: c_def)
  from nc have r0: "0 \<le> r" by (simp add: r_def pos_imp_zdiv_nonneg_iff)
  have "r < nr"
  proof (rule ccontr)
    assume "\<not> r < nr"
    then have "nr \<le> r" by simp
    with nc have "nr * nc \<le> r * nc" by (intro mult_right_mono) simp_all
    also have "\<dots> \<le> r * nc + c" using c by simp
    also have "\<dots> = int j" by (simp add: r_def c_def)
    finally show False using lt by (simp add: mult.commute)
  qed
  with nc nr r0 c have "concat (map (gridRow sx sy cell nc) [0..nr - 1]) ! nat (r * nc + c) =
    \<lparr>dot_x = sx + of_int c * cell, dot_y = sy + of_int r * cell, dot_col = c, dot_row = r\<rparr>"
    by (intro grid_rows_nth) simp_all
  moreover have "nat (r * nc + c) = j" by (simp add: r_def c_def)
  ultimately show ?thesis by (simp add: r_def c_def)
qed

lemma generated_grid:
  assumes "gridCalc p sz = Some L"
  shows "\<exists>sx sy. 1 \<le> cols L \<and> grid L \<noteq> [] \<and> dotSize p + gap p \<noteq> 0
    \<and> (\<forall>j<length (grid L). grid L ! j =
      \<lparr>dot_x = sx + of_int (int j mod cols L) * (dotSize p + gap p),
       dot_y = sy + of_int (int j div cols L) * (dotSize p + gap p),
       dot_col = int j mod cols L, dot_row = int j div cols L\<rparr>)"
proof -
  from assms have cell: "dotSize p + gap p \<noteq> 0"
    by (auto simp add: gridCalc_def Let_def split: if_splits)
  define nc where "nc = max 1 \<lfloor>(width sz + gap p) / (dotSize p + gap p)\<rfloor>"
  define nr where "nr = max 1 \<lfloor>(height sz + gap p) / (dotSize p + gap p)\<rfloor>"
  define sx where "sx = (width sz - ((dotSize p + gap p) * of_int nc - gap p)) / 2 + dotSize p / 2"
  define sy where "sy = (height sz - ((dotSize p + gap p) * of_int nr - gap p)) / 2 + dotSize p / 2"
  have ge: "1 \<le> nc" "1 \<le> nr" by (simp_all add: nc_def nr_def)
  from gridCalc_Some [OF cell, of sz] assms
  have L: "L = \<lparr>cols = nc, rows = nr,
      grid = concat (map (gridRow sx sy (dotSize p + gap p) nc) [0..nr - 1])\<rparr>"
    by (simp add: nc_def nr_def sx_def sy_def)
  then have sel: "cols L = nc" "grid L = concat (map (gridRow sx sy (dotSize p + gap p) nc) [0..nr - 1])"
    by simp_all
  from grid_rows_length [OF ge, of sx sy "dotSize p + gap p"] ge
  have "0 < int (length (grid L))" by (simp only: sel) simp
  then have ne: "grid L \<noteq> []" by auto
  have nth: "\<And>j. j < length (grid L) \<Longrightarrow> grid L ! j =
      \<lparr>dot_x = sx + of_int (int j mod cols L) * (dotSize p + gap p),
       dot_y = sy + of_int (int j div cols L) * (dotSize p + gap p),
       dot_col = int j mod cols L, dot_row = int j div cols L\<rparr>"
    unfolding sel using ge by (rule grid_rows_nth_index)
  from ge(1) ne cell nth show ?thesis by (intro exI [of _ sx] exI [of _ sy]) (simp add: sel)
qed

lemma hypot_zero_iff: "hypot a b = 0 \<longleftrightarrow> a = 0 \<and> b = 0"
  by (simp add: hypot_def)

lemma hypot_nonneg: "0 \<le> hypot a b"
  by (simp add: hypot_def)

lemma pointerDist_self: "pointerDist (dot_x e, dot_y e) e = 0"
  by (simp add: pointerDist_def hypot_def)

lemma pointerDist_zero: "pointerDist h e = 0 \<longleftrightarrow> dot_x e = fst h \<and> dot_y e = snd h"
  by (simp add: pointerDist_def hypot_zero_iff)


lemma row_major_order:
  fixes nc :: int
  assumes "1 \<le> nc" "k \<le> j"
  shows "k div nc < j div nc \<or> (k div nc = j div nc \<and> k mod nc \<le> j mod nc)"
proof -
  from assms have "k div nc \<le> j div nc" by (intro zdiv_mono1) simp_all
  moreover have "k div nc = j div nc \<Longrightarrow> k mod nc \<le> j mod nc"
  proof -
    assume e: "k div nc = j div nc"
    have "k = (k div nc) * nc + k mod nc" "j = (j div nc) * nc + j mod nc" by simp_all
    with e assms(2) show ?thesis by (metis add_le_cancel_left)
  qed
  ultimately show ?thesis by linarith
qed

lemma nearest_in_generated_grid:
  assumes gen: "gridCalc p sz = Some L"
  shows "\<exists>s\<in>set (grid L). hoveredDot (Some h) (grid L) = Some s
      \<and> (\<forall>e\<in>set (grid L). pointerDist h s \<le> pointerDist h e
            \<and> (pointerDist h e = pointerDist h s \<longrightarrow>
                 dot_row s < dot_row e \<or> (dot_row s = dot_row e \<and> dot_col s \<le> dot_col e)))"
proof -
  from generated_grid [OF gen] obtain sx sy where nc: "1 \<le> cols L" and ne: "grid L \<noteq> []"
    and cell: "dotSize p + gap p \<noteq> 0"
    and nth: "\<And>j. j < length (grid L) \<Longrightarrow> grid L ! j =
      \<lparr>dot_x = sx + of_int (int j mod cols L) * (dotSize p + gap p),
       dot_y = sy + of_int (int j div cols L) * (dotSize p + gap p),
       dot_col = int j mod cols L, dot_row = int j div cols L\<rparr>"
    by blast
  from hoveredDot_first_minimum [OF ne, of h] obtain k where k: "k < length (grid L)"
    "hoveredDot (Some h) (grid L) = Some (grid L ! k)"
    "\<forall>j<length (grid L). pointerDist h (grid L ! k) \<le> pointerDist h (grid L ! j)"
    "\<forall>j<k. pointerDist h (grid L ! k) < pointerDist h (grid L ! j)"
    by blast
  have "\<forall>e\<in>set (grid L). pointerDist h (grid L ! k) \<le> pointerDist h e
            \<and> (pointerDist h e = pointerDist h (grid L ! k) \<longrightarrow>
                 dot_row (grid L ! k) < dot_row e
                 \<or> (dot_row (grid L ! k) = dot_row e \<and> dot_col (grid L ! k) \<le> dot_col e))"
  proof (intro ballI conjI impI)
    fix e assume "e \<in> set (grid L)"
    then obtain j where j: "j < length (grid L)" "e = grid L ! j" by (auto simp add: in_set_conv_nth)
    from k(3) j show "pointerDist h (grid L ! k) \<le> pointerDist h e" by simp
    assume tie: "pointerDist h e = pointerDist h (grid L ! k)"
    have "k \<le> j"
    proof (rule ccontr)
      assume "\<not> k \<le> j"
      then have "j < k" by simp
      with k(4) have "pointerDist h (grid L ! k) < pointerDist h (grid L ! j)" by simp
      with tie j show False by simp
    qed
    then have "int k \<le> int j" by simp
    with nc have "int k div cols L < int j div cols L
        \<or> (int k div cols L = int j div cols L \<and> int k mod cols L \<le> int j mod cols L)"
      by (rule row_major_order)
    then show "dot_row (grid L ! k) < dot_row e
        \<or> (dot_row (grid L ! k) = dot_row e \<and> dot_col (grid L ! k) \<le> dot_col e)"
      by (simp add: nth [OF k(1)] j(2) nth [OF j(1)])
  qed
  moreover from k(1) have "grid L ! k \<in> set (grid L)" by simp
  ultimately show ?thesis using k(2) by blast
qed

lemma centres_distinct:
  assumes gen: "gridCalc p sz = Some L" and j: "j < length (grid L)" and k: "k < length (grid L)"
    and x: "dot_x (grid L ! j) = dot_x (grid L ! k)" and y: "dot_y (grid L ! j) = dot_y (grid L ! k)"
  shows "j = k"
proof -
  from generated_grid [OF gen] obtain sx sy where nc: "1 \<le> cols L" and ne: "grid L \<noteq> []"
    and cell: "dotSize p + gap p \<noteq> 0"
    and nth: "\<And>j. j < length (grid L) \<Longrightarrow> grid L ! j =
      \<lparr>dot_x = sx + of_int (int j mod cols L) * (dotSize p + gap p),
       dot_y = sy + of_int (int j div cols L) * (dotSize p + gap p),
       dot_col = int j mod cols L, dot_row = int j div cols L\<rparr>"
    by blast
  from x cell have "real_of_int (int j mod cols L) = real_of_int (int k mod cols L)"
    by (simp add: nth [OF j] nth [OF k])
  then have m: "int j mod cols L = int k mod cols L" by (simp only: of_int_eq_iff)
  from y cell have "real_of_int (int j div cols L) = real_of_int (int k div cols L)"
    by (simp add: nth [OF j] nth [OF k])
  then have d: "int j div cols L = int k div cols L" by (simp only: of_int_eq_iff)
  have "int j = (int j div cols L) * cols L + int j mod cols L" by simp
  also have "\<dots> = (int k div cols L) * cols L + int k mod cols L" by (simp only: m d)
  also have "\<dots> = int k" by simp
  finally show ?thesis by simp
qed

lemma pointer_on_centre:
  assumes gen: "gridCalc p sz = Some L" and e: "e \<in> set (grid L)"
  shows "hoveredDot (Some (dot_x e, dot_y e)) (grid L) = Some e
    \<and> (\<forall>e'\<in>set (grid L). e' \<noteq> e \<longrightarrow>
          pointerDist (dot_x e, dot_y e) e < pointerDist (dot_x e, dot_y e) e')"
proof -
  let ?h = "(dot_x e, dot_y e)"
  from e obtain k0 where k0: "k0 < length (grid L)" "e = grid L ! k0"
    by (auto simp add: in_set_conv_nth)
  then have ne: "grid L \<noteq> []" by auto
  have far: "\<forall>e'\<in>set (grid L). e' \<noteq> e \<longrightarrow> pointerDist ?h e < pointerDist ?h e'"
  proof (intro ballI impI)
    fix e' assume e': "e' \<in> set (grid L)" and diff: "e' \<noteq> e"
    then obtain j where j: "j < length (grid L)" "e' = grid L ! j"
      by (auto simp add: in_set_conv_nth)
    have "pointerDist ?h e' \<noteq> 0"
    proof
      assume "pointerDist ?h e' = 0"
      then have "dot_x e' = dot_x e" "dot_y e' = dot_y e" by (simp_all add: pointerDist_zero)
      with gen j k0 have "j = k0" by (intro centres_distinct [of p sz L]) simp_all
      with j k0 diff show False by simp
    qed
    moreover have "0 \<le> pointerDist ?h e'" by (simp add: pointerDist_def hypot_nonneg)
    ultimately show "pointerDist ?h e < pointerDist ?h e'" by (simp add: pointerDist_self)
  qed
  from hoveredDot_first_minimum [OF ne, of ?h] obtain k where k: "k < length (grid L)"
    "hoveredDot (Some ?h) (grid L) = Some (grid L ! k)"
    "\<forall>j<length (grid L). pointerDist ?h (grid L ! k) \<le> pointerDist ?h (grid L ! j)"
    by blast
  have "grid L ! k = e"
  proof (rule ccontr)
    assume d: "grid L ! k \<noteq> e"
    from k(1) have "grid L ! k \<in> set (grid L)" by simp
    with far d have "pointerDist ?h e < pointerDist ?h (grid L ! k)" by blast
    moreover from k(3) k0 have "pointerDist ?h (grid L ! k) \<le> pointerDist ?h e" by simp
    ultimately show False by simp
  qed
  with k(2) far show ?thesis by simp
qed


text \<open>
  Claim C5. On a grid that is not empty the nearest-dot scan returns a dot whose Euclidean
  distance from the pointer to its centre is minimal, and among the dots at that distance
  the first one of the list: every earlier dot is strictly farther. On a computed grid,
  which is in row-major order, the first one is the one with the lower row, then the
  lower column. A pointer exactly on the centre of a dot of a computed grid selects that
  dot, and every other dot is strictly farther from the pointer.
\<close>

theorem nearest_dot_first_minimum:
  "(g \<noteq> [] \<longrightarrow>
      (\<exists>k<length g. hoveredDot (Some h) g = Some (g ! k)
         \<and> (\<forall>j<length g. pointerDist h (g ! k) \<le> pointerDist h (g ! j))
         \<and> (\<forall>j<k. pointerDist h (g ! k) < pointerDist h (g ! j))))
   \<and> (gridCalc p sz = Some L \<longrightarrow>
      (\<exists>s\<in>set (grid L). hoveredDot (Some h) (grid L) = Some s
         \<and> (\<forall>e\<in>set (grid L). pointerDist h s \<le> pointerDist h e
               \<and> (pointerDist h e = pointerDist h s \<longrightarrow>
                    dot_row s < dot_row e \<or> (dot_row s = dot_row e \<and> dot_col s \<le> dot_col e)))))
   \<and> (gridCalc p sz = Some L \<and> c \<in> set (grid L) \<longrightarrow>
      hoveredDot (Some (dot_x c, dot_y c)) (grid L) = Some c
      \<and> (\<forall>e\<in>set (grid L). e \<noteq> c \<longrightarrow>
            pointerDist (dot_x c, dot_y c) c < pointerDist (dot_x c, dot_y c) e))
   \<and> pointerDist h c = sqrt ((dot_x c - fst h)\<^sup>2 + (dot_y c - snd h)\<^sup>2)"
proof (intro conjI impI)
  assume "g \<noteq> []"
  then show "\<exists>k<length g. hoveredDot (Some h) g = Some (g ! k)
         \<and> (\<forall>j<length g. pointerDist h (g ! k) \<le> pointerDist h (g ! j))
         \<and> (\<forall>j<k. pointerDist h (g ! k) < pointerDist h (g ! j))"
    by (rule hoveredDot_first_minimum)
next
  assume "gridCalc p sz = Some L"
  then show "\<exists>s\<in>set (grid L). hoveredDot (Some h) (grid L) = Some s
         \<and> (\<forall>e\<in>set (grid L). pointerDist h s \<le> pointerDist h e
               \<and> (pointerDist h e = pointerDist h s \<longrightarrow>
                    dot_row s < dot_row e \<or> (dot_row s = dot_row e \<and> dot_col s \<le> dot_col e)))"
    by (rule nearest_in_generated_grid)
next
  assume a: "gridCalc p sz = Some L \<and> c \<in> set (grid L)"
  then have "hoveredDot (Some (dot_x c, dot_y c)) (grid L) = Some c
    \<and> (\<forall>e\<in>set (grid L). e \<noteq> c \<longrightarrow>
          pointerDist (dot_x c, dot_y c) c < pointerDist (dot_x c, dot_y c) e)"
    by (intro pointer_on_centre [of p sz L]) simp_all
  then show "hoveredDot (Some (dot_x c, dot_y c)) (grid L) = Some c"
    and "\<forall>e\<in>set (grid L). e \<noteq> c \<longrightarrow>
          pointerDist (dot_x c, dot_y c) c < pointerDist (dot_x c, dot_y c) e"
    by simp_all
next
  show "pointerDist h c = sqrt ((dot_x c - fst h)\<^sup>2 + (dot_y c - snd h)\<^sup>2)"
    by (simp add: pointerDist_def hypot_def)
qed

theorem nearest_dot_first_minimum_witness:
  "gridCalc defaultProps \<lparr>width = 64, height = 0\<rparr>
     = Some \<lparr>cols = 2, rows = 1,
             grid = [\<lparr>dot_x = 8, dot_y = 0, dot_col = 0, dot_row = 0\<rparr>,
                     \<lparr>dot_x = 56, dot_y = 0, dot_col = 1, dot_row = 0\<rparr>]\<rparr>
   \<and> hoveredDot (Some (32, 0)) [\<lparr>dot_x = 8, dot_y = 0, dot_col = 0, dot_row = 0\<rparr>,
                     \<lparr>dot_x = 56, dot_y = 0, dot_col = 1, dot_row = 0\<rparr>]
       = Some \<lparr>dot_x = 8, dot_y = 0, dot_col = 0, dot_row = 0\<rparr>
   \<and> pointerDist (32, 0) \<lparr>dot_x = 8, dot_y = 0, dot_col = 0, dot_row = 0\<rparr>
       = pointerDist (32, 0) \<lparr>dot_x = 56, dot_y = 0, dot_col = 1, dot_row = 0\<rparr>
   \<and> hoveredDot (Some (56, 0)) [\<lparr>dot_x = 8, dot_y = 0, dot_col = 0, dot_row = 0\<rparr>,
                     \<lparr>dot_x = 56, dot_y = 0, dot_col = 1, dot_row = 0\<rparr>]
       = Some \<lparr>dot_x = 56, dot_y = 0, dot_col = 1, dot_row = 0\<rparr>
   \<and> pointerDist (56, 0) \<lparr>dot_x = 56, dot_y = 0, dot_col = 1, dot_row = 0\<rparr>
       < pointerDist (56, 0) \<lparr>dot_x = 8, dot_y = 0, dot_col = 0, dot_row = 0\<rparr>"
proof -
  let ?d0 = "\<lparr>dot_x = 8, dot_y = 0, dot_col = 0, dot_row = 0\<rparr>"
  let ?d1 = "\<lparr>dot_x = 56, dot_y = 0, dot_col = 1, dot_row = 0\<rparr>"
  let ?L = "\<lparr>cols = 2, rows = 1, grid = [?d0, ?d1]\<rparr>"
  have gen: "gridCalc defaultProps \<lparr>width = 64, height = 0\<rparr> = Some ?L"
    by (simp add: gridCalc_def defaultProps_def gridRow_def Let_def upto.simps)
  have tie: "pointerDist (32, 0) ?d0 = pointerDist (32, 0) ?d1"
    by (simp add: pointerDist_def hypot_def)
  have ne: "[?d0, ?d1] \<noteq> []" by simp
  have mem: "?d1 \<in> set (grid ?L)" by simp
  from nearest_dot_first_minimum [where g = "[?d0, ?d1]" and h = "(32, 0)"
      and p = defaultProps and sz = "\<lparr>width = 64, height = 0\<rparr>" and L = ?L and c = ?d1] ne gen mem
  have sel: "hoveredDot (Some (56, 0)) [?d0, ?d1] = Some ?d1"
    and far: "pointerDist (56, 0) ?d1 < pointerDist (56, 0) ?d0"
    and first: "\<exists>k<length [?d0, ?d1]. hoveredDot (Some (32, 0)) [?d0, ?d1] = Some ([?d0, ?d1] ! k)
         \<and> (\<forall>j<k. pointerDist (32, 0) ([?d0, ?d1] ! k) < pointerDist (32, 0) ([?d0, ?d1] ! j))"
    by auto
  from first obtain k where k: "k < length [?d0, ?d1]"
    "hoveredDot (Some (32, 0)) [?d0, ?d1] = Some ([?d0, ?d1] ! k)"
    "\<forall>j<k. pointerDist (32, 0) ([?d0, ?d1] ! k) < pointerDist (32, 0) ([?d0, ?d1] ! j)"
    by blast
  have "k = 0"
  proof (rule ccontr)
    assume "k \<noteq> 0"
    with k(1) have k1: "k = 1" by simp
    with k(3) have "pointerDist (32, 0) ?d1 < pointerDist (32, 0) ?d0" by simp
    with tie show False by simp
  qed
  with k(2) have "hoveredDot (Some (32, 0)) [?d0, ?d1] = Some ?d0" by simp
  with gen tie sel far show ?thesis by simp
qed

section \<open>The active cluster\<close>

lemma set_set_add: "set (set_add v s) = insert v (set s)"
  by (auto simp add: set_add_def)

lemma distinct_set_add: "distinct s \<Longrightarrow> distinct (set_add v s)"
  by (simp add: set_add_def)

lemma set_fold_add:
  "set (fold (\<lambda>x s. if P x then s else set_add (f x) s) xs s) = set s \<union> f ` {x \<in> set xs. \<not> P x}"
  by (induction xs arbitrary: s) (auto simp add: set_set_add)

lemma distinct_fold_add:
  "distinct s \<Longrightarrow> distinct (fold (\<lambda>x s. if P x then s else set_add (f x) s) xs s)"
  by (induction xs arbitrary: s) (simp_all add: distinct_set_add)

lemma set_fold_rows:
  "set (fold (\<lambda>y s. fold (\<lambda>x s. if P y x then s else set_add (f y x) s) xs s) ys s)
     = set s \<union> (\<Union>y\<in>set ys. f y ` {x \<in> set xs. \<not> P y x})"
  by (induction ys arbitrary: s) (auto simp add: set_fold_add)

lemma distinct_fold_rows:
  "distinct s \<Longrightarrow> distinct (fold (\<lambda>y s. fold (\<lambda>x s. if P y x then s else set_add (f y x) s) xs s) ys s)"
  by (induction ys arbitrary: s) (simp_all add: distinct_fold_add)

lemma activeSet_unfold:
  "activeSet p (Some hov) nc nr =
     fold (\<lambda>dr s. fold (\<lambda>dc s.
         if dot_row hov + dr < 0 \<or> dot_row hov + dr \<ge> nr \<or> dot_col hov + dc < 0 \<or> dot_col hov + dc \<ge> nc
         then s else set_add ((dot_row hov + dr) * nc + (dot_col hov + dc)) s)
       [- \<lfloor>hoverCount p / 2\<rfloor>..\<lfloor>hoverCount p / 2\<rfloor>] s)
     [- \<lfloor>hoverCount p / 2\<rfloor>..\<lfloor>hoverCount p / 2\<rfloor>] []"
  by (simp add: activeSet_def Let_def)

lemma distinct_activeSet: "distinct (activeSet p h nc nr)"
proof (cases h)
  case None
  then show ?thesis by (simp add: activeSet_def)
next
  case (Some hov)
  show ?thesis unfolding Some activeSet_unfold by (rule distinct_fold_rows) simp
qed

lemma set_activeSet:
  "set (activeSet p (Some hov) nc nr) =
     {r * nc + c | r c. \<bar>r - dot_row hov\<bar> \<le> \<lfloor>hoverCount p / 2\<rfloor> \<and> \<bar>c - dot_col hov\<bar> \<le> \<lfloor>hoverCount p / 2\<rfloor>
        \<and> 0 \<le> r \<and> r < nr \<and> 0 \<le> c \<and> c < nc}"
  (is "?L = ?R")
proof -
  define R where "R = \<lfloor>hoverCount p / 2\<rfloor>"
  have L: "?L = (\<Union>dr\<in>{- R..R}. (\<lambda>dc. (dot_row hov + dr) * nc + (dot_col hov + dc)) `
      {dc \<in> {- R..R}. \<not> (dot_row hov + dr < 0 \<or> dot_row hov + dr \<ge> nr \<or> dot_col hov + dc < 0 \<or> dot_col hov + dc \<ge> nc)})"
    unfolding activeSet_unfold R_def [symmetric] by (subst set_fold_rows) simp
  show ?thesis
  proof (rule set_eqI)
    fix i
    show "i \<in> ?L \<longleftrightarrow> i \<in> ?R"
    proof
      assume "i \<in> ?L"
      then obtain dr dc where d: "dr \<in> {- R..R}" "dc \<in> {- R..R}"
        "\<not> (dot_row hov + dr < 0 \<or> dot_row hov + dr \<ge> nr \<or> dot_col hov + dc < 0 \<or> dot_col hov + dc \<ge> nc)"
        "i = (dot_row hov + dr) * nc + (dot_col hov + dc)"
        unfolding L by auto
      then have "\<bar>(dot_row hov + dr) - dot_row hov\<bar> \<le> R \<and> \<bar>(dot_col hov + dc) - dot_col hov\<bar> \<le> R
        \<and> 0 \<le> dot_row hov + dr \<and> dot_row hov + dr < nr \<and> 0 \<le> dot_col hov + dc \<and> dot_col hov + dc < nc"
        by auto
      with d(4) show "i \<in> ?R" unfolding R_def by blast
    next
      assume "i \<in> ?R"
      then obtain r c where rc: "i = r * nc + c" "\<bar>r - dot_row hov\<bar> \<le> R" "\<bar>c - dot_col hov\<bar> \<le> R"
        "0 \<le> r" "r < nr" "0 \<le> c" "c < nc"
        unfolding R_def by blast
      define dr where "dr = r - dot_row hov"
      define dc where "dc = c - dot_col hov"
      have "dr \<in> {- R..R}" "dc \<in> {- R..R}" using rc by (auto simp add: dr_def dc_def)
      moreover have "dot_row hov + dr = r" "dot_col hov + dc = c" by (simp_all add: dr_def dc_def)
      ultimately show "i \<in> ?L" unfolding L using rc by force
    qed
  qed
qed


lemma index_inj:
  fixes nc :: int
  assumes "0 \<le> c" "c < nc" "0 \<le> c'" "c' < nc" "r * nc + c = r' * nc + c'"
  shows "r = r' \<and> c = c'"
proof -
  have d1: "(r * nc + c) div nc = r" using assms(1,2) by simp
  have d2: "(r' * nc + c') div nc = r'" using assms(3,4) by simp
  from d1 [unfolded assms(5)] d2 have "r = r'" by simp
  with assms(5) show ?thesis by simp
qed

lemma length_activeSet_inner:
  assumes R: "0 \<le> \<lfloor>hoverCount p / 2\<rfloor>"
    and fit: "\<lfloor>hoverCount p / 2\<rfloor> \<le> dot_row hov" "dot_row hov + \<lfloor>hoverCount p / 2\<rfloor> < nr"
      "\<lfloor>hoverCount p / 2\<rfloor> \<le> dot_col hov" "dot_col hov + \<lfloor>hoverCount p / 2\<rfloor> < nc"
  shows "length (activeSet p (Some hov) nc nr) = nat ((2 * \<lfloor>hoverCount p / 2\<rfloor> + 1)\<^sup>2)"
proof -
  define R where "R = \<lfloor>hoverCount p / 2\<rfloor>"
  define hr where "hr = dot_row hov"
  define hc where "hc = dot_col hov"
  have a': "0 \<le> R" "R \<le> hr" "hr + R < nr" "R \<le> hc" "hc + R < nc"
    using R fit by (simp_all add: R_def hr_def hc_def)
  let ?B = "{hr - R..hr + R} \<times> {hc - R..hc + R}"
  have S: "set (activeSet p (Some hov) nc nr) = (\<lambda>(r, c). r * nc + c) ` ?B"
  proof (rule set_eqI)
    fix i
    show "i \<in> set (activeSet p (Some hov) nc nr) \<longleftrightarrow> i \<in> (\<lambda>(r, c). r * nc + c) ` ?B"
    proof
      assume "i \<in> set (activeSet p (Some hov) nc nr)"
      then obtain r c where "i = r * nc + c" "\<bar>r - hr\<bar> \<le> R" "\<bar>c - hc\<bar> \<le> R"
        unfolding set_activeSet R_def hr_def hc_def by blast
      then have "(r, c) \<in> ?B" "i = (\<lambda>(r, c). r * nc + c) (r, c)" by auto
      then show "i \<in> (\<lambda>(r, c). r * nc + c) ` ?B" by (rule rev_image_eqI)
    next
      assume "i \<in> (\<lambda>(r, c). r * nc + c) ` ?B"
      then obtain r c where rc: "i = r * nc + c" "hr - R \<le> r" "r \<le> hr + R" "hc - R \<le> c" "c \<le> hc + R"
        by auto
      with a' have "\<bar>r - hr\<bar> \<le> R \<and> \<bar>c - hc\<bar> \<le> R \<and> 0 \<le> r \<and> r < nr \<and> 0 \<le> c \<and> c < nc"
        by auto
      with rc(1) show "i \<in> set (activeSet p (Some hov) nc nr)"
        unfolding set_activeSet R_def hr_def hc_def by blast
    qed
  qed
  have inj: "inj_on (\<lambda>(r, c). r * nc + c) ?B"
  proof (rule inj_onI)
    fix x y assume x: "x \<in> ?B" and y: "y \<in> ?B"
      and e: "(\<lambda>(r, c). r * nc + c) x = (\<lambda>(r, c). r * nc + c) y"
    obtain r c where xe: "x = (r, c)" by (cases x)
    obtain r' c' where ye: "y = (r', c')" by (cases y)
    from x y a' have "0 \<le> c" "c < nc" "0 \<le> c'" "c' < nc" by (auto simp add: xe ye)
    moreover from e have "r * nc + c = r' * nc + c'" by (simp add: xe ye)
    ultimately have "r = r' \<and> c = c'" by (rule index_inj)
    then show "x = y" by (simp add: xe ye)
  qed
  have "length (activeSet p (Some hov) nc nr) = card (set (activeSet p (Some hov) nc nr))"
    by (simp add: distinct_card distinct_activeSet)
  also have "\<dots> = card ?B" unfolding S by (rule card_image [OF inj])
  also have "\<dots> = nat (2 * R + 1) * nat (2 * R + 1)" by (simp add: card_cartesian_product)
  also have "\<dots> = nat ((2 * R + 1)\<^sup>2)" using a'(1) by (simp add: power2_eq_square nat_mult_distrib)
  finally show ?thesis by (simp add: R_def)
qed

lemma activeSet_in_grid:
  assumes "i \<in> set (activeSet p (Some hov) nc nr)"
  shows "0 \<le> i \<and> i < nr * nc"
proof -
  from assms obtain r c where rc: "i = r * nc + c" "0 \<le> r" "r < nr" "0 \<le> c" "c < nc"
    unfolding set_activeSet by blast
  then have "0 \<le> r * nc" by simp
  moreover have "r * nc + c < nr * nc"
  proof -
    from rc have "r * nc + c < r * nc + nc" by simp
    also have "\<dots> = (r + 1) * nc" by (simp add: algebra_simps)
    also from rc have "\<dots> \<le> nr * nc" by (intro mult_right_mono) simp_all
    finally show ?thesis .
  qed
  ultimately show ?thesis using rc by simp
qed

lemma activeSet_even_odd:
  "activeSet (p\<lparr>hoverDotCount := Some (2 * of_int k)\<rparr>) h nc nr
     = activeSet (p\<lparr>hoverDotCount := Some (2 * of_int k + 1)\<rparr>) h nc nr"
proof -
  have "\<lfloor>(2 * real_of_int k + 1) / 2\<rfloor> = k"
    by (rule floor_unique) (simp_all add: field_simps)
  then show ?thesis by (simp add: activeSet_def hoverCount_def Let_def split: option.split)
qed


text \<open>
  Claim C2. With \<open>count = hoverDotCount\<close> (5 when absent), the cluster around the
  hovered dot \<open>(hr, hc)\<close> is exactly the set of indices \<open>r * cols + c\<close> with
  \<open>\<bar>r - hr\<bar> \<le> \<lfloor>count / 2\<rfloor>\<close>, \<open>\<bar>c - hc\<bar> \<le> \<lfloor>count / 2\<rfloor>\<close>, \<open>0 \<le> r < rows\<close> and
  \<open>0 \<le> c < cols\<close>, each once, all of them indices of the grid; where the square fits in
  the grid it has \<open>(2 * \<lfloor>count / 2\<rfloor> + 1)\<^sup>2\<close> members, 25 for \<open>count = 5\<close>; an even
  count gives the cluster of the next odd count; no hovered dot gives the empty cluster.
\<close>

theorem active_cluster_square:
  "set (activeSet p (Some hov) nc nr) =
     {r * nc + c | r c. \<bar>r - dot_row hov\<bar> \<le> \<lfloor>hoverCount p / 2\<rfloor> \<and> \<bar>c - dot_col hov\<bar> \<le> \<lfloor>hoverCount p / 2\<rfloor>
        \<and> 0 \<le> r \<and> r < nr \<and> 0 \<le> c \<and> c < nc}
   \<and> distinct (activeSet p (Some hov) nc nr)
   \<and> hoverCount p = (case hoverDotCount p of Some n \<Rightarrow> n | None \<Rightarrow> 5)
   \<and> (\<forall>i\<in>set (activeSet p (Some hov) nc nr). 0 \<le> i \<and> i < nr * nc)
   \<and> (0 \<le> \<lfloor>hoverCount p / 2\<rfloor> \<and> \<lfloor>hoverCount p / 2\<rfloor> \<le> dot_row hov
        \<and> dot_row hov + \<lfloor>hoverCount p / 2\<rfloor> < nr \<and> \<lfloor>hoverCount p / 2\<rfloor> \<le> dot_col hov
        \<and> dot_col hov + \<lfloor>hoverCount p / 2\<rfloor> < nc \<longrightarrow>
        length (activeSet p (Some hov) nc nr) = nat ((2 * \<lfloor>hoverCount p / 2\<rfloor> + 1)\<^sup>2))
   \<and> (hoverCount p = 5 \<and> 2 \<le> dot_row hov \<and> dot_row hov + 2 < nr \<and> 2 \<le> dot_col hov
        \<and> dot_col hov + 2 < nc \<longrightarrow>
        length (activeSet p (Some hov) nc nr) = 25)
   \<and> activeSet (p\<lparr>hoverDotCount := Some (2 * of_int k)\<rparr>) (Some hov) nc nr
        = activeSet (p\<lparr>hoverDotCount := Some (2 * of_int k + 1)\<rparr>) (Some hov) nc nr
   \<and> activeSet p None nc nr = []"
proof (intro conjI impI ballI)
  show "set (activeSet p (Some hov) nc nr) =
     {r * nc + c | r c. \<bar>r - dot_row hov\<bar> \<le> \<lfloor>hoverCount p / 2\<rfloor> \<and> \<bar>c - dot_col hov\<bar> \<le> \<lfloor>hoverCount p / 2\<rfloor>
        \<and> 0 \<le> r \<and> r < nr \<and> 0 \<le> c \<and> c < nc}"
    by (rule set_activeSet)
  show "distinct (activeSet p (Some hov) nc nr)" by (rule distinct_activeSet)
  show "hoverCount p = (case hoverDotCount p of Some n \<Rightarrow> n | None \<Rightarrow> 5)"
    by (simp add: hoverCount_def)
  show "activeSet (p\<lparr>hoverDotCount := Some (2 * of_int k)\<rparr>) (Some hov) nc nr
        = activeSet (p\<lparr>hoverDotCount := Some (2 * of_int k + 1)\<rparr>) (Some hov) nc nr"
    by (rule activeSet_even_odd)
  show "activeSet p None nc nr = []" by (simp add: activeSet_def)
next
  fix i assume "i \<in> set (activeSet p (Some hov) nc nr)"
  then have "0 \<le> i \<and> i < nr * nc" by (rule activeSet_in_grid)
  then show "0 \<le> i" and "i < nr * nc" by simp_all
next
  assume "0 \<le> \<lfloor>hoverCount p / 2\<rfloor> \<and> \<lfloor>hoverCount p / 2\<rfloor> \<le> dot_row hov
        \<and> dot_row hov + \<lfloor>hoverCount p / 2\<rfloor> < nr \<and> \<lfloor>hoverCount p / 2\<rfloor> \<le> dot_col hov
        \<and> dot_col hov + \<lfloor>hoverCount p / 2\<rfloor> < nc"
  then show "length (activeSet p (Some hov) nc nr) = nat ((2 * \<lfloor>hoverCount p / 2\<rfloor> + 1)\<^sup>2)"
    by (intro length_activeSet_inner) simp_all
next
  assume a: "hoverCount p = 5 \<and> 2 \<le> dot_row hov \<and> dot_row hov + 2 < nr \<and> 2 \<le> dot_col hov
        \<and> dot_col hov + 2 < nc"
  then have R: "\<lfloor>hoverCount p / 2\<rfloor> = 2" by simp
  with a have "length (activeSet p (Some hov) nc nr) = nat ((2 * \<lfloor>hoverCount p / 2\<rfloor> + 1)\<^sup>2)"
    by (intro length_activeSet_inner) simp_all
  with R show "length (activeSet p (Some hov) nc nr) = 25" by simp
qed

theorem active_cluster_square_witness:
  "length (activeSet defaultProps (Some \<lparr>dot_x = 200, dot_y = 200, dot_col = 4, dot_row = 4\<rparr>) 9 9) = 25
   \<and> activeSet defaultProps (Some \<lparr>dot_x = 200, dot_y = 200, dot_col = 4, dot_row = 4\<rparr>) 9 9
       = [20, 21, 22, 23, 24, 29, 30, 31, 32, 33, 38, 39, 40, 41, 42, 47, 48, 49, 50, 51,
          56, 57, 58, 59, 60]
   \<and> activeSet defaultProps (Some \<lparr>dot_x = 8, dot_y = 8, dot_col = 0, dot_row = 0\<rparr>) 9 9
       = [0, 1, 2, 9, 10, 11, 18, 19, 20]
   \<and> activeSet (defaultProps\<lparr>hoverDotCount := Some 4\<rparr>)
        (Some \<lparr>dot_x = 8, dot_y = 8, dot_col = 0, dot_row = 0\<rparr>) 9 9
       = activeSet (defaultProps\<lparr>hoverDotCount := Some 5\<rparr>)
        (Some \<lparr>dot_x = 8, dot_y = 8, dot_col = 0, dot_row = 0\<rparr>) 9 9"
proof -
  let ?mid = "\<lparr>dot_x = 200, dot_y = 200, dot_col = 4, dot_row = 4\<rparr>"
  let ?corner = "\<lparr>dot_x = 8, dot_y = 8, dot_col = 0, dot_row = 0\<rparr>"
  have five: "hoverCount defaultProps = 5" by (simp add: hoverCount_def defaultProps_def)
  have mid: "activeSet defaultProps (Some ?mid) 9 9
       = [20, 21, 22, 23, 24, 29, 30, 31, 32, 33, 38, 39, 40, 41, 42, 47, 48, 49, 50, 51,
          56, 57, 58, 59, 60]"
    by code_simp
  have corner: "activeSet defaultProps (Some ?corner) 9 9 = [0, 1, 2, 9, 10, 11, 18, 19, 20]"
    by code_simp
  have "length (activeSet defaultProps (Some ?mid) 9 9) = 25"
    using active_cluster_square [where p = defaultProps and hov = ?mid and nc = 9 and nr = 9] five
    by simp
  moreover have "activeSet (defaultProps\<lparr>hoverDotCount := Some 4\<rparr>) (Some ?corner) 9 9
       = activeSet (defaultProps\<lparr>hoverDotCount := Some 5\<rparr>) (Some ?corner) 9 9"
    using active_cluster_square [where p = defaultProps and hov = ?corner and nc = 9 and nr = 9 and k = 2]
    by simp
  ultimately show ?thesis using mid corner by simp
qed

section \<open>The hover scale\<close>


lemma circlePlain_active:
  assumes "isHoverActive hover aset (Some hov) i"
  shows "circle_r (circlePlain p hover aset (Some hov) (i, d)) = baseRadiusOf p * hoverScale p d hov"
    and "circle_fill (circlePlain p hover aset (Some hov) (i, d)) = activeColor p"
  using assms by (simp_all add: circlePlain_def Let_def)

lemma circleTrail_active:
  assumes "isHoverActive hover aset (Some hov) i"
  shows "circle_r (circleTrail p hover aset (Some hov) m nowv (i, d)) = baseRadiusOf p * hoverScale p d hov"
    and "circle_fill (circleTrail p hover aset (Some hov) m nowv (i, d))
           = blend (baseColor p) (activeColor p) 1"
  using assms by (simp_all add: circleTrail_def Let_def)






section \<open>The colour helpers\<close>

lemma hexMatch_None:
  assumes "\<not> (\<exists>ds. length ds = 6 \<and> (\<forall>d\<in>set ds. isHexDigit d) \<and> (s = ds \<or> s = CHR ''#'' # ds))"
  shows "hexMatch s = None"
proof (cases s)
  case Nil
  then show ?thesis by (simp add: hexMatch_def)
next
  case (Cons c cs)
  show ?thesis
  proof (cases "c = CHR ''#''")
    case True
    with assms Cons have "\<not> (length cs = 6 \<and> (\<forall>d\<in>set cs. isHexDigit d))" by blast
    with True Cons show ?thesis by (auto simp add: hexMatch_def list_all_iff Let_def)
  next
    case False
    from assms have "\<not> (length s = 6 \<and> (\<forall>d\<in>set s. isHexDigit d))" by blast
    with False Cons show ?thesis by (auto simp add: hexMatch_def list_all_iff Let_def)
  qed
qed

lemma hexChar_table:
  "\<forall>n\<in>set [0..<16]. hexChar n \<in> set ''0123456789abcdef'' \<and> digitVal (hexChar n) = n"
  by code_simp

lemma hexChar_lower: "n < 16 \<Longrightarrow> hexChar n \<in> set ''0123456789abcdef''"
  using hexChar_table by simp

lemma digitVal_hexChar: "n < 16 \<Longrightarrow> digitVal (hexChar n) = n"
  using hexChar_table by simp

lemma hexChar_0: "hexChar 0 = CHR ''0''"
  by (simp add: hexChar_def)

lemma byteHex:
  assumes v: "v < 256"
  shows "padStart 2 (CHR ''0'') (toString16 v) = [hexChar (v div 16), hexChar (v mod 16)]"
proof (cases "v < 16")
  case True
  then show ?thesis by (simp add: padStart_def hexChar_0)
next
  case False
  with v have "v div 16 < 16" by simp
  with False show ?thesis by (simp add: padStart_def)
qed

lemma clampByte_lt: "clampByte x < 256"
  by (simp add: clampByte_def)

lemma clampByte_hi: "clampByte x div 16 < 16"
  using clampByte_lt [of x] by simp

lemma channelHex_eq: "channelHex x = [hexChar (clampByte x div 16), hexChar (clampByte x mod 16)]"
  using byteHex [OF clampByte_lt [of x]] by (simp add: channelHex_def Let_def)

lemma parseInt16_pair: "a < 16 \<Longrightarrow> b < 16 \<Longrightarrow> parseInt16 [hexChar a, hexChar b] = 16 * a + b"
  by (simp add: parseInt16_def digitVal_hexChar)

lemma parseInt16_channel:
  "parseInt16 [hexChar (clampByte x div 16), hexChar (clampByte x mod 16)] = clampByte x"
  using clampByte_hi [of x] by (simp add: parseInt16_pair)

lemma int_clampByte: "int (clampByte x) = max 0 (min 255 (round x))"
  by (simp add: clampByte_def)

lemma blend_shape:
  "blend a b t =
     (let ca = hexToRgb a; cb = hexToRgb b;
          r = clampByte (rgb_r ca + (rgb_r cb - rgb_r ca) * t);
          g = clampByte (rgb_g ca + (rgb_g cb - rgb_g ca) * t);
          bl = clampByte (rgb_b ca + (rgb_b cb - rgb_b ca) * t)
      in [CHR ''#'', hexChar (r div 16), hexChar (r mod 16), hexChar (g div 16), hexChar (g mod 16),
          hexChar (bl div 16), hexChar (bl mod 16)])"
  by (simp add: blend_def rgbToHex_def channelHex_eq Let_def)

text \<open>
  Claim C8. The colour helpers are total. A string that is not six hexadecimal digits
  after an optional \<open>#\<close> parses to black. For all strings \<open>a\<close>, \<open>b\<close> and every (finite)
  \<open>t\<close>, \<open>blend a b t\<close> is \<open>#\<close> and six lower-case hexadecimal digits, and each pair
  of digits is the channel \<open>a + (b - a) * t\<close> rounded to the nearest integer and clamped
  to 0..255.
\<close>

theorem color_helpers_fail_soft:
  "(\<not> (\<exists>ds. length ds = 6 \<and> (\<forall>d\<in>set ds. isHexDigit d) \<and> (s = ds \<or> s = CHR ''#'' # ds))
      \<longrightarrow> hexToRgb s = \<lparr>rgb_r = 0, rgb_g = 0, rgb_b = 0\<rparr>)
   \<and> (\<exists>d1 d2 d3 d4 d5 d6.
        blend a b t = [CHR ''#'', d1, d2, d3, d4, d5, d6]
        \<and> set [d1, d2, d3, d4, d5, d6] \<subseteq> set ''0123456789abcdef''
        \<and> int (parseInt16 [d1, d2])
            = max 0 (min 255 (round (rgb_r (hexToRgb a) + (rgb_r (hexToRgb b) - rgb_r (hexToRgb a)) * t)))
        \<and> int (parseInt16 [d3, d4])
            = max 0 (min 255 (round (rgb_g (hexToRgb a) + (rgb_g (hexToRgb b) - rgb_g (hexToRgb a)) * t)))
        \<and> int (parseInt16 [d5, d6])
            = max 0 (min 255 (round (rgb_b (hexToRgb a) + (rgb_b (hexToRgb b) - rgb_b (hexToRgb a)) * t))))"
proof (intro conjI impI)
  assume "\<not> (\<exists>ds. length ds = 6 \<and> (\<forall>d\<in>set ds. isHexDigit d) \<and> (s = ds \<or> s = CHR ''#'' # ds))"
  then have "hexMatch s = None" by (rule hexMatch_None)
  then show "hexToRgb s = \<lparr>rgb_r = 0, rgb_g = 0, rgb_b = 0\<rparr>" by (simp add: hexToRgb_def)
next
  define r where "r = clampByte (rgb_r (hexToRgb a) + (rgb_r (hexToRgb b) - rgb_r (hexToRgb a)) * t)"
  define g where "g = clampByte (rgb_g (hexToRgb a) + (rgb_g (hexToRgb b) - rgb_g (hexToRgb a)) * t)"
  define bl where "bl = clampByte (rgb_b (hexToRgb a) + (rgb_b (hexToRgb b) - rgb_b (hexToRgb a)) * t)"
  have shape: "blend a b t = [CHR ''#'', hexChar (r div 16), hexChar (r mod 16),
      hexChar (g div 16), hexChar (g mod 16), hexChar (bl div 16), hexChar (bl mod 16)]"
    by (simp add: blend_shape Let_def r_def g_def bl_def)
  have hi: "r div 16 < 16" "g div 16 < 16" "bl div 16 < 16"
    by (simp_all add: r_def g_def bl_def clampByte_hi)
  have lo: "r mod 16 < 16" "g mod 16 < 16" "bl mod 16 < 16" by simp_all
  define S where "S = set ''0123456789abcdef''"
  have mem: "hexChar (r div 16) \<in> S" "hexChar (r mod 16) \<in> S" "hexChar (g div 16) \<in> S"
      "hexChar (g mod 16) \<in> S" "hexChar (bl div 16) \<in> S" "hexChar (bl mod 16) \<in> S"
    unfolding S_def using hi lo by (blast intro: hexChar_lower)+
  have digits: "set [hexChar (r div 16), hexChar (r mod 16), hexChar (g div 16), hexChar (g mod 16),
      hexChar (bl div 16), hexChar (bl mod 16)] \<subseteq> set ''0123456789abcdef''"
    using mem unfolding S_def [symmetric] by simp
  have vals: "int (parseInt16 [hexChar (r div 16), hexChar (r mod 16)])
        = max 0 (min 255 (round (rgb_r (hexToRgb a) + (rgb_r (hexToRgb b) - rgb_r (hexToRgb a)) * t)))"
      "int (parseInt16 [hexChar (g div 16), hexChar (g mod 16)])
        = max 0 (min 255 (round (rgb_g (hexToRgb a) + (rgb_g (hexToRgb b) - rgb_g (hexToRgb a)) * t)))"
      "int (parseInt16 [hexChar (bl div 16), hexChar (bl mod 16)])
        = max 0 (min 255 (round (rgb_b (hexToRgb a) + (rgb_b (hexToRgb b) - rgb_b (hexToRgb a)) * t)))"
    by (simp_all only: r_def g_def bl_def parseInt16_channel int_clampByte)
  from shape digits vals show "\<exists>d1 d2 d3 d4 d5 d6.
        blend a b t = [CHR ''#'', d1, d2, d3, d4, d5, d6]
        \<and> set [d1, d2, d3, d4, d5, d6] \<subseteq> set ''0123456789abcdef''
        \<and> int (parseInt16 [d1, d2])
            = max 0 (min 255 (round (rgb_r (hexToRgb a) + (rgb_r (hexToRgb b) - rgb_r (hexToRgb a)) * t)))
        \<and> int (parseInt16 [d3, d4])
            = max 0 (min 255 (round (rgb_g (hexToRgb a) + (rgb_g (hexToRgb b) - rgb_g (hexToRgb a)) * t)))
        \<and> int (parseInt16 [d5, d6])
            = max 0 (min 255 (round (rgb_b (hexToRgb a) + (rgb_b (hexToRgb b) - rgb_b (hexToRgb a)) * t)))"
    by blast
qed

theorem color_helpers_fail_soft_witness:
  "hexToRgb ''rgb(255, 255, 255)'' = \<lparr>rgb_r = 0, rgb_g = 0, rgb_b = 0\<rparr>
   \<and> blend ''#5227FF'' ''#FFFFFF'' (1 / 2) = ''#a993ff''
   \<and> (\<exists>d1 d2 d3 d4 d5 d6. blend ''#5227FF'' ''white'' 3 = [CHR ''#'', d1, d2, d3, d4, d5, d6])"
proof -
  have no: "\<not> (\<exists>ds. length ds = 6 \<and> (\<forall>d\<in>set ds. isHexDigit d)
      \<and> (''rgb(255, 255, 255)'' = ds \<or> ''rgb(255, 255, 255)'' = CHR ''#'' # ds))"
    by auto
  have "hexToRgb ''rgb(255, 255, 255)'' = \<lparr>rgb_r = 0, rgb_g = 0, rgb_b = 0\<rparr>"
    using no color_helpers_fail_soft [where s = "''rgb(255, 255, 255)''"] by blast
  moreover have "blend ''#5227FF'' ''#FFFFFF'' (1 / 2) = ''#a993ff''"
    by code_simp
  moreover have "\<exists>d1 d2 d3 d4 d5 d6. blend ''#5227FF'' ''white'' 3 = [CHR ''#'', d1, d2, d3, d4, d5, d6]"
    using color_helpers_fail_soft [where a = "''#5227FF''" and b = "''white''" and t = 3] by blast
  ultimately show ?thesis by blast
qed

section \<open>The trail level over time\<close>

lemma tick_lastHitRef: "lastHitRef (tick True p hover t c) = evict p t (lastHitRef c)"
  by (simp add: tick_def requestAnimationFrame_def Let_def)

lemma tick_now: "now (tick True p hover t c) = t"
  by (simp add: tick_def requestAnimationFrame_def Let_def)

lemma map_of_evict_expired:
  assumes d: "distinct (map fst m)" and hit: "map_of m i = Some t0"
    and late: "t - t0 > max 0 (trailHoldMs p) + max 0 (trailFadeMs p)"
  shows "map_of (evict p t m) i = None"
proof -
  have "i \<notin> fst ` set (filter (\<lambda>(idx, hit). \<not> (t - hit > max 0 (trailHoldMs p) + max 0 (trailFadeMs p))) m)"
  proof
    assume "i \<in> fst ` set (filter (\<lambda>(idx, hit). \<not> (t - hit > max 0 (trailHoldMs p) + max 0 (trailFadeMs p))) m)"
    then obtain v where v: "(i, v) \<in> set m" and keep: "\<not> (t - v > max 0 (trailHoldMs p) + max 0 (trailFadeMs p))"
      by auto
    from d v have "map_of m i = Some v" by simp
    with hit have "v = t0" by simp
    with keep late show False by simp
  qed
  then have "map_of (filter (\<lambda>(idx, hit). \<not> (t - hit > max 0 (trailHoldMs p) + max 0 (trailFadeMs p))) m) i = None"
    by (simp add: map_of_eq_None_iff)
  then show ?thesis by (simp add: evict_def Let_def)
qed

lemma getTrailLevel_absent: "map_of m i = None \<Longrightarrow> getTrailLevel p m t i = 0"
  by (simp add: getTrailLevel_def)

lemma getTrailLevel_hold:
  "trailEnabled p \<Longrightarrow> map_of m i = Some t0 \<Longrightarrow> t - t0 \<le> trailHoldMs p \<Longrightarrow> getTrailLevel p m t i = 1"
  by (simp add: getTrailLevel_def Let_def)

lemma getTrailLevel_fade:
  assumes "trailEnabled p" "map_of m i = Some t0" "0 \<le> trailHoldMs p"
    "trailHoldMs p < t - t0" "t - t0 \<le> trailHoldMs p + trailFadeMs p"
  shows "getTrailLevel p m t i = 1 - (t - t0 - trailHoldMs p) / trailFadeMs p"
proof -
  from assms have f: "0 < trailFadeMs p" by simp
  define q where "q = (t - t0 - trailHoldMs p) / trailFadeMs p"
  from assms f have q0: "0 < q" by (simp add: q_def)
  from assms f have q1: "q \<le> 1" by (simp add: q_def divide_le_eq)
  from assms f have "getTrailLevel p m t i = max 0 (min 1 (1 - q))"
    by (simp add: getTrailLevel_def Let_def q_def)
  also from q0 q1 have "\<dots> = 1 - q" by simp
  finally show ?thesis by (simp add: q_def)
qed


lemma distinct_stamps:
  "distinct (map fst m) \<Longrightarrow> distinct (map fst (fold (\<lambda>idx m. AList.update idx t m) xs m))"
  by (induction xs arbitrary: m) (simp_all add: distinct_update)

lemma distinct_hitEffect:
  "distinct (map fst (lastHitRef c)) \<Longrightarrow> distinct (map fst (lastHitRef (hitEffect p hover aset t c)))"
  by (simp add: hitEffect_def distinct_stamps)

lemma distinct_evict: "distinct (map fst m) \<Longrightarrow> distinct (map fst (evict p t m))"
  by (simp add: evict_def Let_def distinct_map_filter)

lemma map_of_evict_kept:
  assumes hit: "map_of m i = Some t0"
    and pos: "0 < max 0 (trailHoldMs p) + max 0 (trailFadeMs p)"
    and early: "t - t0 \<le> max 0 (trailHoldMs p) + max 0 (trailFadeMs p)"
  shows "map_of (evict p t m) i = Some t0"
proof -
  from early have keep: "\<not> (t - t0 > max 0 (trailHoldMs p) + max 0 (trailFadeMs p))" by simp
  from hit keep
  have "map_of (filter (\<lambda>(idx, hit). \<not> (t - hit > max 0 (trailHoldMs p) + max 0 (trailFadeMs p))) m) i
      = Some t0"
    by (rule map_of_filter_in)
  with pos show ?thesis by (simp add: evict_def Let_def)
qed

lemma ticks_keep:
  assumes pos: "0 < max 0 (trailHoldMs p) + max 0 (trailFadeMs p)"
    and early: "\<forall>u\<in>set ts. u - t0 \<le> max 0 (trailHoldMs p) + max 0 (trailFadeMs p)"
    and hit: "map_of (lastHitRef c) i = Some t0"
  shows "map_of (lastHitRef (fold (\<lambda>u c. tick True p hover u c) ts c)) i = Some t0"
  using early hit
proof (induction ts arbitrary: c)
  case Nil
  then show ?case by simp
next
  case (Cons u ts)
  from Cons.prems have "u - t0 \<le> max 0 (trailHoldMs p) + max 0 (trailFadeMs p)" by simp
  with Cons.prems(2) pos have "map_of (evict p u (lastHitRef c)) i = Some t0"
    by (intro map_of_evict_kept)
  then have "map_of (lastHitRef (tick True p hover u c)) i = Some t0"
    by (simp add: tick_lastHitRef)
  moreover from Cons.prems have "\<forall>u\<in>set ts. u - t0 \<le> max 0 (trailHoldMs p) + max 0 (trailFadeMs p)"
    by simp
  ultimately show ?case by (simp add: Cons.IH)
qed

lemma ticks_distinct:
  "distinct (map fst (lastHitRef c)) \<Longrightarrow>
   distinct (map fst (lastHitRef (fold (\<lambda>u c. tick True p hover u c) ts c)))"
  by (induction ts arbitrary: c) (simp_all add: tick_lastHitRef distinct_evict)

text \<open>
  Claim C4. With trailing enabled and the timings in their range (\<open>trailHoldMs\<close> and
  \<open>trailFadeMs\<close> not negative), a dot whose entry in the map holds the timestamp \<open>t0\<close>
  has trail level 1 at every time \<open>t\<close> with \<open>t - t0 \<le> trailHoldMs\<close>, level
  \<open>1 - (t - t0 - trailHoldMs) / trailFadeMs\<close> while
  \<open>trailHoldMs < t - t0 \<le> trailHoldMs + trailFadeMs\<close>, and a tick at a time \<open>t\<close> with
  \<open>t - t0 > trailHoldMs + trailFadeMs\<close> removes the entry, after which the level is 0.
  The clock itself carries the dot through this timeline: where hold and fade are not both
  0, a tick at a time \<open>t\<close> with \<open>t - t0 \<le> trailHoldMs + trailFadeMs\<close> keeps the entry with
  its timestamp and sets \<open>now\<close> to \<open>t\<close>, so the level drawn after that tick is 1 in the
  hold window and the fade value after it; the entry survives every run of such ticks and
  goes with the first tick after \<open>t0 + trailHoldMs + trailFadeMs\<close>, not before.
  With 180 and 520 the level is 1 at \<open>t0 + 100\<close>, one half at \<open>t0 + 440\<close>, also after ticks
  at these times, and the entry is gone after a tick at \<open>t0 + 701\<close>.
\<close>

theorem trail_level_timeline:
  assumes en: "trailEnabled p" and h0: "0 \<le> trailHoldMs p" and f0: "0 \<le> trailFadeMs p"
    and dist: "distinct (map fst (lastHitRef c))"
    and hit: "map_of (lastHitRef c) i = Some t0"
  shows "(t - t0 \<le> trailHoldMs p \<longrightarrow> getTrailLevel p (lastHitRef c) t i = 1)
    \<and> (trailHoldMs p < t - t0 \<and> t - t0 \<le> trailHoldMs p + trailFadeMs p \<longrightarrow>
         getTrailLevel p (lastHitRef c) t i = 1 - (t - t0 - trailHoldMs p) / trailFadeMs p)
    \<and> (t - t0 > trailHoldMs p + trailFadeMs p \<longrightarrow>
         map_of (lastHitRef (tick True p hover t c)) i = None
         \<and> getTrailLevel p (lastHitRef (tick True p hover t c)) (now (tick True p hover t c)) i = 0)
    \<and> (trailHoldMs p = 180 \<and> trailFadeMs p = 520 \<longrightarrow>
         getTrailLevel p (lastHitRef c) (t0 + 100) i = 1
         \<and> getTrailLevel p (lastHitRef c) (t0 + 440) i = 1 / 2
         \<and> map_of (lastHitRef (tick True p hover (t0 + 701) c)) i = None)
    \<and> (0 < trailHoldMs p + trailFadeMs p \<and> t - t0 \<le> trailHoldMs p + trailFadeMs p \<longrightarrow>
         map_of (lastHitRef (tick True p hover t c)) i = Some t0
         \<and> now (tick True p hover t c) = t
         \<and> getTrailLevel p (lastHitRef (tick True p hover t c)) (now (tick True p hover t c)) i
             = (if t - t0 \<le> trailHoldMs p then 1
                else 1 - (t - t0 - trailHoldMs p) / trailFadeMs p))
    \<and> (0 < trailHoldMs p + trailFadeMs p
         \<and> (\<forall>u\<in>set ts. u - t0 \<le> trailHoldMs p + trailFadeMs p) \<longrightarrow>
         map_of (lastHitRef (fold (\<lambda>u c. tick True p hover u c) ts c)) i = Some t0
         \<and> (t - t0 > trailHoldMs p + trailFadeMs p \<longrightarrow>
              map_of (lastHitRef (tick True p hover t (fold (\<lambda>u c. tick True p hover u c) ts c))) i
                = None))
    \<and> (trailHoldMs p = 180 \<and> trailFadeMs p = 520 \<longrightarrow>
         getTrailLevel p (lastHitRef (tick True p hover (t0 + 100) c))
             (now (tick True p hover (t0 + 100) c)) i = 1
         \<and> getTrailLevel p (lastHitRef (tick True p hover (t0 + 440) c))
             (now (tick True p hover (t0 + 440) c)) i = 1 / 2
         \<and> map_of (lastHitRef (tick True p hover (t0 + 700) c)) i = Some t0)"
proof -
  have expire: "max 0 (trailHoldMs p) + max 0 (trailFadeMs p) = trailHoldMs p + trailFadeMs p"
    using h0 f0 by simp
  have hold: "\<And>m s. map_of m i = Some t0 \<Longrightarrow> s - t0 \<le> trailHoldMs p \<Longrightarrow> getTrailLevel p m s i = 1"
    using en by (rule getTrailLevel_hold)
  have fade: "\<And>m s. map_of m i = Some t0 \<Longrightarrow> trailHoldMs p < s - t0 \<Longrightarrow>
      s - t0 \<le> trailHoldMs p + trailFadeMs p \<Longrightarrow>
      getTrailLevel p m s i = 1 - (s - t0 - trailHoldMs p) / trailFadeMs p"
    using en h0 by (intro getTrailLevel_fade)
  have kept: "\<And>s. 0 < trailHoldMs p + trailFadeMs p \<Longrightarrow> s - t0 \<le> trailHoldMs p + trailFadeMs p \<Longrightarrow>
      map_of (lastHitRef (tick True p hover s c)) i = Some t0"
  proof -
    fix s assume "0 < trailHoldMs p + trailFadeMs p" "s - t0 \<le> trailHoldMs p + trailFadeMs p"
    with hit have "map_of (evict p s (lastHitRef c)) i = Some t0"
      by (intro map_of_evict_kept) (simp_all only: expire)
    then show "map_of (lastHitRef (tick True p hover s c)) i = Some t0"
      by (simp add: tick_lastHitRef)
  qed
  have gone: "\<And>s (c' :: clock). distinct (map fst (lastHitRef c')) \<Longrightarrow> map_of (lastHitRef c') i = Some t0 \<Longrightarrow>
      s - t0 > trailHoldMs p + trailFadeMs p \<Longrightarrow>
      map_of (lastHitRef (tick True p hover s c')) i = None"
  proof -
    fix s and c' :: clock assume d: "distinct (map fst (lastHitRef c'))" and h: "map_of (lastHitRef c') i = Some t0"
      and "s - t0 > trailHoldMs p + trailFadeMs p"
    then have "s - t0 > max 0 (trailHoldMs p) + max 0 (trailFadeMs p)" by (simp only: expire)
    with d h have "map_of (evict p s (lastHitRef c')) i = None" by (rule map_of_evict_expired)
    then show "map_of (lastHitRef (tick True p hover s c')) i = None"
      by (simp add: tick_lastHitRef)
  qed
  have c1: "t - t0 \<le> trailHoldMs p \<longrightarrow> getTrailLevel p (lastHitRef c) t i = 1"
    using hit by (simp add: hold)
  have c2: "trailHoldMs p < t - t0 \<and> t - t0 \<le> trailHoldMs p + trailFadeMs p \<longrightarrow>
         getTrailLevel p (lastHitRef c) t i = 1 - (t - t0 - trailHoldMs p) / trailFadeMs p"
    using hit by (simp add: fade)
  have c3: "t - t0 > trailHoldMs p + trailFadeMs p \<longrightarrow>
         map_of (lastHitRef (tick True p hover t c)) i = None
         \<and> getTrailLevel p (lastHitRef (tick True p hover t c)) (now (tick True p hover t c)) i = 0"
    using gone [OF dist hit] by (simp add: getTrailLevel_absent)
  have c4: "trailHoldMs p = 180 \<and> trailFadeMs p = 520 \<longrightarrow>
         getTrailLevel p (lastHitRef c) (t0 + 100) i = 1
         \<and> getTrailLevel p (lastHitRef c) (t0 + 440) i = 1 / 2
         \<and> map_of (lastHitRef (tick True p hover (t0 + 701) c)) i = None"
  proof (intro impI conjI)
    assume d: "trailHoldMs p = 180 \<and> trailFadeMs p = 520"
    with hit show "getTrailLevel p (lastHitRef c) (t0 + 100) i = 1" by (simp add: hold)
    from d hit have "getTrailLevel p (lastHitRef c) (t0 + 440) i
        = 1 - (t0 + 440 - t0 - trailHoldMs p) / trailFadeMs p"
      by (intro fade) simp_all
    with d show "getTrailLevel p (lastHitRef c) (t0 + 440) i = 1 / 2" by simp
    from d show "map_of (lastHitRef (tick True p hover (t0 + 701) c)) i = None"
      by (intro gone [OF dist hit]) simp
  qed
  have c5: "0 < trailHoldMs p + trailFadeMs p \<and> t - t0 \<le> trailHoldMs p + trailFadeMs p \<longrightarrow>
         map_of (lastHitRef (tick True p hover t c)) i = Some t0
         \<and> now (tick True p hover t c) = t
         \<and> getTrailLevel p (lastHitRef (tick True p hover t c)) (now (tick True p hover t c)) i
             = (if t - t0 \<le> trailHoldMs p then 1
                else 1 - (t - t0 - trailHoldMs p) / trailFadeMs p)"
  proof (intro impI conjI)
    assume a: "0 < trailHoldMs p + trailFadeMs p \<and> t - t0 \<le> trailHoldMs p + trailFadeMs p"
    then show k: "map_of (lastHitRef (tick True p hover t c)) i = Some t0" by (simp add: kept)
    show n: "now (tick True p hover t c) = t" by (rule tick_now)
    show "getTrailLevel p (lastHitRef (tick True p hover t c)) (now (tick True p hover t c)) i
             = (if t - t0 \<le> trailHoldMs p then 1
                else 1 - (t - t0 - trailHoldMs p) / trailFadeMs p)"
    proof (cases "t - t0 \<le> trailHoldMs p")
      case True
      with k show ?thesis by (simp only: n hold if_True)
    next
      case False
      with a k have "getTrailLevel p (lastHitRef (tick True p hover t c)) t i
          = 1 - (t - t0 - trailHoldMs p) / trailFadeMs p"
        by (intro fade) simp_all
      with False show ?thesis by (simp only: n if_False)
    qed
  qed
  have c6: "0 < trailHoldMs p + trailFadeMs p
         \<and> (\<forall>u\<in>set ts. u - t0 \<le> trailHoldMs p + trailFadeMs p) \<longrightarrow>
         map_of (lastHitRef (fold (\<lambda>u c. tick True p hover u c) ts c)) i = Some t0
         \<and> (t - t0 > trailHoldMs p + trailFadeMs p \<longrightarrow>
              map_of (lastHitRef (tick True p hover t (fold (\<lambda>u c. tick True p hover u c) ts c))) i
                = None)"
  proof (intro impI conjI)
    assume a: "0 < trailHoldMs p + trailFadeMs p
         \<and> (\<forall>u\<in>set ts. u - t0 \<le> trailHoldMs p + trailFadeMs p)"
    then have "0 < max 0 (trailHoldMs p) + max 0 (trailFadeMs p)"
      and "\<forall>u\<in>set ts. u - t0 \<le> max 0 (trailHoldMs p) + max 0 (trailFadeMs p)"
      by (simp_all add: expire)
    then show k: "map_of (lastHitRef (fold (\<lambda>u c. tick True p hover u c) ts c)) i = Some t0"
      using hit by (rule ticks_keep)
    assume "t - t0 > trailHoldMs p + trailFadeMs p"
    with k show "map_of (lastHitRef (tick True p hover t (fold (\<lambda>u c. tick True p hover u c) ts c))) i
        = None"
      by (intro gone ticks_distinct dist)
  qed
  have c7: "trailHoldMs p = 180 \<and> trailFadeMs p = 520 \<longrightarrow>
         getTrailLevel p (lastHitRef (tick True p hover (t0 + 100) c))
             (now (tick True p hover (t0 + 100) c)) i = 1
         \<and> getTrailLevel p (lastHitRef (tick True p hover (t0 + 440) c))
             (now (tick True p hover (t0 + 440) c)) i = 1 / 2
         \<and> map_of (lastHitRef (tick True p hover (t0 + 700) c)) i = Some t0"
  proof (intro impI conjI)
    assume d: "trailHoldMs p = 180 \<and> trailFadeMs p = 520"
    then have k: "map_of (lastHitRef (tick True p hover (t0 + 100) c)) i = Some t0"
      "map_of (lastHitRef (tick True p hover (t0 + 440) c)) i = Some t0"
      "map_of (lastHitRef (tick True p hover (t0 + 700) c)) i = Some t0"
      by (simp_all add: kept)
    from k(3) show "map_of (lastHitRef (tick True p hover (t0 + 700) c)) i = Some t0" .
    from d k(1) show "getTrailLevel p (lastHitRef (tick True p hover (t0 + 100) c))
             (now (tick True p hover (t0 + 100) c)) i = 1"
      by (simp add: tick_now hold)
    from d k(2) have "getTrailLevel p (lastHitRef (tick True p hover (t0 + 440) c)) (t0 + 440) i
        = 1 - (t0 + 440 - t0 - trailHoldMs p) / trailFadeMs p"
      by (intro fade) simp_all
    with d show "getTrailLevel p (lastHitRef (tick True p hover (t0 + 440) c))
             (now (tick True p hover (t0 + 440) c)) i = 1 / 2"
      by (simp add: tick_now)
  qed
  from c1 c2 c3 c4 c5 c6 c7 show ?thesis by (intro conjI)
qed

theorem trail_level_timeline_witness:
  "getTrailLevel (defaultProps\<lparr>trailEnabled := True\<rparr>) [(40, 1000)] 1100 40 = 1
   \<and> getTrailLevel (defaultProps\<lparr>trailEnabled := True\<rparr>) [(40, 1000)] 1440 40 = 1 / 2
   \<and> getTrailLevel (defaultProps\<lparr>trailEnabled := True\<rparr>) [(40, 1000)] 1700 40 = 0
   \<and> map_of (lastHitRef (tick True (defaultProps\<lparr>trailEnabled := True\<rparr>) None 1701
         (initialClock\<lparr>lastHitRef := [(40, 1000)]\<rparr>))) 40 = None
   \<and> getTrailLevel (defaultProps\<lparr>trailEnabled := True\<rparr>)
        (lastHitRef (tick True (defaultProps\<lparr>trailEnabled := True\<rparr>) None 1701
           (initialClock\<lparr>lastHitRef := [(40, 1000)]\<rparr>)))
        (now (tick True (defaultProps\<lparr>trailEnabled := True\<rparr>) None 1701
           (initialClock\<lparr>lastHitRef := [(40, 1000)]\<rparr>))) 40 = 0
   \<and> lastHitRef (tick True (defaultProps\<lparr>trailEnabled := True\<rparr>) None 1440
         (initialClock\<lparr>lastHitRef := [(40, 1000)]\<rparr>)) = [(40, 1000)]
   \<and> getTrailLevel (defaultProps\<lparr>trailEnabled := True\<rparr>)
        (lastHitRef (tick True (defaultProps\<lparr>trailEnabled := True\<rparr>) None 1100
           (initialClock\<lparr>lastHitRef := [(40, 1000)]\<rparr>)))
        (now (tick True (defaultProps\<lparr>trailEnabled := True\<rparr>) None 1100
           (initialClock\<lparr>lastHitRef := [(40, 1000)]\<rparr>))) 40 = 1
   \<and> getTrailLevel (defaultProps\<lparr>trailEnabled := True\<rparr>)
        (lastHitRef (tick True (defaultProps\<lparr>trailEnabled := True\<rparr>) None 1440
           (initialClock\<lparr>lastHitRef := [(40, 1000)]\<rparr>)))
        (now (tick True (defaultProps\<lparr>trailEnabled := True\<rparr>) None 1440
           (initialClock\<lparr>lastHitRef := [(40, 1000)]\<rparr>))) 40 = 1 / 2
   \<and> map_of (lastHitRef (fold (\<lambda>u c. tick True (defaultProps\<lparr>trailEnabled := True\<rparr>) None u c)
         [1016, 1100, 1440, 1700] (initialClock\<lparr>lastHitRef := [(40, 1000)]\<rparr>))) 40 = Some 1000
   \<and> map_of (lastHitRef (tick True (defaultProps\<lparr>trailEnabled := True\<rparr>) None 1701
         (fold (\<lambda>u c. tick True (defaultProps\<lparr>trailEnabled := True\<rparr>) None u c)
            [1016, 1100, 1440, 1700] (initialClock\<lparr>lastHitRef := [(40, 1000)]\<rparr>)))) 40 = None"
proof -
  let ?p = "defaultProps\<lparr>trailEnabled := True\<rparr>"
  let ?c = "initialClock\<lparr>lastHitRef := [(40, 1000)]\<rparr>"
  have pre: "trailEnabled ?p" "0 \<le> trailHoldMs ?p" "0 \<le> trailFadeMs ?p"
    "distinct (map fst (lastHitRef ?c))" "map_of (lastHitRef ?c) 40 = Some 1000"
    "trailHoldMs ?p = 180" "trailFadeMs ?p = 520" "lastHitRef ?c = [(40, 1000)]"
    by (simp_all add: defaultProps_def initialClock_def)
  have kept: "lastHitRef (tick True ?p None 1440 ?c) = [(40, 1000)]"
    by (simp add: tick_lastHitRef evict_def pre(6-8))
  have run: "\<forall>u\<in>set [1016, 1100, 1440, 1700::real]. u - 1000 \<le> trailHoldMs ?p + trailFadeMs ?p"
    by (simp add: pre(6,7))
  show ?thesis
    using trail_level_timeline [OF pre(1-5), where t = 1100 and hover = None and ts = "[]"]
      trail_level_timeline [OF pre(1-5), where t = 1440 and hover = None and ts = "[]"]
      trail_level_timeline [OF pre(1-5), where t = 1700 and hover = None and ts = "[]"]
      trail_level_timeline [OF pre(1-5), where t = 1701 and hover = None
        and ts = "[1016, 1100, 1440, 1700]"] run kept
    by (simp add: pre(6-8))
qed

section \<open>The clock loop stops by itself\<close>

lemma tick_reschedules:
  assumes "trailEnabled p \<and> (hover \<noteq> None \<or> evict p t (lastHitRef c) \<noteq> [])"
  shows "frames (tick True p hover t c) = frames c @ [Suc (nextFrame c)]"
    and "rafRef (tick True p hover t c) = Some (Suc (nextFrame c))"
  using assms by (auto simp add: tick_def requestAnimationFrame_def Let_def)

lemma tick_stops:
  assumes "\<not> (trailEnabled p \<and> (hover \<noteq> None \<or> evict p t (lastHitRef c) \<noteq> []))"
  shows "frames (tick True p hover t c) = frames c"
    and "rafRef (tick True p hover t c) = None"
  using assms by (auto simp add: tick_def requestAnimationFrame_def Let_def)

lemma evict_all_expired:
  assumes "\<forall>e\<in>set m. t - snd e > max 0 (trailHoldMs p) + max 0 (trailFadeMs p)"
  shows "evict p t m = []"
  using assms by (auto simp add: evict_def Let_def filter_empty_conv)

lemma cancelPending_frames:
  assumes "set (frames c) \<subseteq> set_option (rafRef c)" and "0 \<notin> set (frames c)"
  shows "frames (cancelPending c) = []" and "rafRef (cancelPending c) = None"
proof -
  show "rafRef (cancelPending c) = None" by (simp add: cancelPending_def Let_def)
  show "frames (cancelPending c) = []"
  proof (cases "rafRef c")
    case None
    with assms show ?thesis by (simp add: cancelPending_def)
  next
    case (Some h)
    with assms have "set (frames c) \<subseteq> {h}" by simp
    then have "removeAll h (frames c) = []" by (auto simp add: removeAll_filter_not_eq filter_empty_conv)
    moreover from assms Some have "frames c \<noteq> [] \<Longrightarrow> h \<noteq> 0" by (cases "frames c") auto
    ultimately show ?thesis using Some
      by (cases "frames c = []") (simp_all add: cancelPending_def cancelAnimationFrame_def Let_def)
  qed
qed


lemma evict_Nil: "evict p t [] = []"
  by (simp add: evict_def Let_def)

lemma tick_unmounted: "tick False p hover t c = c"
  by (simp add: tick_def)

text \<open>
  Claim C7. A tick that runs while its effect is live first evicts the expired entries
  and then requests another animation frame exactly when \<open>trailEnabled\<close> holds and the
  pointer is present or an entry is left; otherwise it requests none and clears
  \<open>rafRef\<close>. So with no pointer and no entry the loop stops: after the pending callback
  has run the host holds no callback, the effect itself requests none, and once every
  entry has expired the next tick is the last. A tick of a torn-down effect does nothing.
\<close>

theorem clock_loop_self_terminating:
  "lastHitRef (tick True p hover t c) = evict p t (lastHitRef c)
   \<and> (trailEnabled p \<and> (hover \<noteq> None \<or> lastHitRef (tick True p hover t c) \<noteq> []) \<longrightarrow>
        frames (tick True p hover t c) = frames c @ [Suc (nextFrame c)]
        \<and> rafRef (tick True p hover t c) = Some (Suc (nextFrame c)))
   \<and> (\<not> (trailEnabled p \<and> (hover \<noteq> None \<or> lastHitRef (tick True p hover t c) \<noteq> [])) \<longrightarrow>
        frames (tick True p hover t c) = frames c \<and> rafRef (tick True p hover t c) = None)
   \<and> (hover = None \<and> lastHitRef c = [] \<and> frames c = [h] \<longrightarrow>
        frames (runFrame True p hover t c) = [] \<and> rafRef (runFrame True p hover t c) = None)
   \<and> (hover = None \<and> lastHitRef c = [] \<and> set (frames c) \<subseteq> set_option (rafRef c)
        \<and> 0 \<notin> set (frames c) \<longrightarrow>
        frames (clockEffect False p hover c) = [] \<and> rafRef (clockEffect False p hover c) = None)
   \<and> (hover = None \<and> frames c = [h]
        \<and> (\<forall>e\<in>set (lastHitRef c). t - snd e > max 0 (trailHoldMs p) + max 0 (trailFadeMs p)) \<longrightarrow>
        lastHitRef (runFrame True p hover t c) = [] \<and> frames (runFrame True p hover t c) = []
        \<and> rafRef (runFrame True p hover t c) = None)
   \<and> tick False p hover t c = c"
proof (intro conjI impI)
  show l: "lastHitRef (tick True p hover t c) = evict p t (lastHitRef c)"
    by (simp add: tick_def requestAnimationFrame_def Let_def)
  show "tick False p hover t c = c" by (rule tick_unmounted)
  {
    assume a: "trailEnabled p \<and> (hover \<noteq> None \<or> lastHitRef (tick True p hover t c) \<noteq> [])"
    then have "trailEnabled p \<and> (hover \<noteq> None \<or> evict p t (lastHitRef c) \<noteq> [])"
      by (simp add: l)
    then show "frames (tick True p hover t c) = frames c @ [Suc (nextFrame c)]"
      and "rafRef (tick True p hover t c) = Some (Suc (nextFrame c))"
      by (rule tick_reschedules)+
  }
  {
    assume a: "\<not> (trailEnabled p \<and> (hover \<noteq> None \<or> lastHitRef (tick True p hover t c) \<noteq> []))"
    then have "\<not> (trailEnabled p \<and> (hover \<noteq> None \<or> evict p t (lastHitRef c) \<noteq> []))"
      by (simp add: l)
    then show "frames (tick True p hover t c) = frames c"
      and "rafRef (tick True p hover t c) = None"
      by (rule tick_stops)+
  }
  {
    assume a: "hover = None \<and> lastHitRef c = [] \<and> frames c = [h]"
    then have n: "\<not> (trailEnabled p \<and> (hover \<noteq> None \<or> evict p t (lastHitRef (c\<lparr>frames := []\<rparr>)) \<noteq> []))"
      by (simp add: evict_Nil)
    from a have r: "runFrame True p hover t c = tick True p hover t (c\<lparr>frames := []\<rparr>)"
      by (simp add: runFrame_def)
    from tick_stops [OF n] show "frames (runFrame True p hover t c) = []"
      and "rafRef (runFrame True p hover t c) = None"
      by (simp_all add: r)
  }
  {
    assume a: "hover = None \<and> lastHitRef c = [] \<and> set (frames c) \<subseteq> set_option (rafRef c)
        \<and> 0 \<notin> set (frames c)"
    then have e: "clockEffect False p hover c = cancelPending c"
      by (simp add: clockEffect_def)
    from a have s: "set (frames c) \<subseteq> set_option (rafRef c)" and z: "0 \<notin> set (frames c)"
      by simp_all
    from cancelPending_frames [OF s z] show "frames (clockEffect False p hover c) = []"
      and "rafRef (clockEffect False p hover c) = None"
      by (simp_all add: e)
  }
  {
    assume a: "hover = None \<and> frames c = [h]
        \<and> (\<forall>e\<in>set (lastHitRef c). t - snd e > max 0 (trailHoldMs p) + max 0 (trailFadeMs p))"
    then have ev: "evict p t (lastHitRef (c\<lparr>frames := []\<rparr>)) = []"
      by (simp add: evict_all_expired)
    with a have n: "\<not> (trailEnabled p \<and> (hover \<noteq> None \<or> evict p t (lastHitRef (c\<lparr>frames := []\<rparr>)) \<noteq> []))"
      by simp
    from a have r: "runFrame True p hover t c = tick True p hover t (c\<lparr>frames := []\<rparr>)"
      by (simp add: runFrame_def)
    from ev show "lastHitRef (runFrame True p hover t c) = []"
      by (simp add: r tick_def requestAnimationFrame_def Let_def)
    from tick_stops [OF n] show "frames (runFrame True p hover t c) = []"
      and "rafRef (runFrame True p hover t c) = None"
      by (simp_all add: r)
  }
qed


theorem clock_loop_self_terminating_witness:
  "frames (tick True (defaultProps\<lparr>trailEnabled := True\<rparr>) None 1701
      \<lparr>lastHitRef = [(3, 1000), (4, 1001)], now = 1001, rafRef = Some 1, frames = [], nextFrame = 1\<rparr>) = [2]
   \<and> lastHitRef (tick True (defaultProps\<lparr>trailEnabled := True\<rparr>) None 1701
      \<lparr>lastHitRef = [(3, 1000), (4, 1001)], now = 1001, rafRef = Some 1, frames = [], nextFrame = 1\<rparr>)
       = [(4, 1001)]
   \<and> frames (runFrame True (defaultProps\<lparr>trailEnabled := True\<rparr>) None 1702
      \<lparr>lastHitRef = [(4, 1001)], now = 1701, rafRef = Some 2, frames = [2], nextFrame = 2\<rparr>) = []
   \<and> rafRef (runFrame True (defaultProps\<lparr>trailEnabled := True\<rparr>) None 1702
      \<lparr>lastHitRef = [(4, 1001)], now = 1701, rafRef = Some 2, frames = [2], nextFrame = 2\<rparr>) = None
   \<and> frames (tick True (defaultProps\<lparr>trailEnabled := True\<rparr>) None 1718
      \<lparr>lastHitRef = [], now = 1702, rafRef = Some 2, frames = [], nextFrame = 2\<rparr>) = []
   \<and> frames (runFrame True (defaultProps\<lparr>trailEnabled := True\<rparr>) None 1718
      \<lparr>lastHitRef = [], now = 1702, rafRef = Some 2, frames = [2], nextFrame = 2\<rparr>) = []
   \<and> frames (clockEffect False (defaultProps\<lparr>trailEnabled := True\<rparr>) None
      \<lparr>lastHitRef = [], now = 1702, rafRef = Some 2, frames = [2], nextFrame = 2\<rparr>) = []"
proof -
  let ?p = "defaultProps\<lparr>trailEnabled := True\<rparr>"
  have p: "trailEnabled ?p" "trailHoldMs ?p = 180" "trailFadeMs ?p = 520"
    by (simp_all add: defaultProps_def)
  have e1: "evict ?p 1701 [(3, 1000), (4, 1001)] = [(4, 1001)]"
    by (simp add: evict_def p)
  show ?thesis
    using clock_loop_self_terminating [where p = ?p and hover = None and t = 1701 and h = 1
        and c = "\<lparr>lastHitRef = [(3, 1000), (4, 1001)], now = 1001, rafRef = Some 1, frames = [], nextFrame = 1\<rparr>"]
      clock_loop_self_terminating [where p = ?p and hover = None and t = 1702 and h = 2
        and c = "\<lparr>lastHitRef = [(4, 1001)], now = 1701, rafRef = Some 2, frames = [2], nextFrame = 2\<rparr>"]
      clock_loop_self_terminating [where p = ?p and hover = None and t = 1718 and h = 2
        and c = "\<lparr>lastHitRef = [], now = 1702, rafRef = Some 2, frames = [], nextFrame = 2\<rparr>"]
      clock_loop_self_terminating [where p = ?p and hover = None and t = 1718 and h = 2
        and c = "\<lparr>lastHitRef = [], now = 1702, rafRef = Some 2, frames = [2], nextFrame = 2\<rparr>"]
    by (simp add: e1 p evict_Nil)
qed

section \<open>The fill of the cluster, and the two variants\<close>

lemma blend_one: "blend b a 1 = rgbToHex (hexToRgb a)"
  by (simp add: blend_def Let_def rgbToHex_def)

lemma hexChar_isHexDigit: "n < 16 \<Longrightarrow> isHexDigit (hexChar n)"
  using hexChar_lower [of n] by (auto simp add: isHexDigit_def)

lemma digitVal_lt: "isHexDigit c \<Longrightarrow> digitVal c < 16"
  by (auto simp add: isHexDigit_def digitVal_def)

lemma hexChar_digitVal: "c \<in> set ''0123456789abcdef'' \<Longrightarrow> hexChar (digitVal c) = c"
  by (auto simp add: hexChar_def digitVal_def)

lemma lower_isHexDigit: "c \<in> set ''0123456789abcdef'' \<Longrightarrow> isHexDigit c"
  by (auto simp add: isHexDigit_def)

lemma clampByte_real: "n < 256 \<Longrightarrow> clampByte (real n) = n"
  by (simp add: clampByte_def)

lemma parseInt16_two: "parseInt16 [c1, c2] = 16 * digitVal c1 + digitVal c2"
  by (simp add: parseInt16_def)

lemma channelHex_parse:
  assumes "isHexDigit c1" "isHexDigit c2"
  shows "channelHex (real (parseInt16 [c1, c2])) = [hexChar (digitVal c1), hexChar (digitVal c2)]"
proof -
  from assms have lt: "digitVal c1 < 16" "digitVal c2 < 16" by (simp_all add: digitVal_lt)
  then have "parseInt16 [c1, c2] < 256" by (simp add: parseInt16_two)
  then have "clampByte (real (parseInt16 [c1, c2])) = parseInt16 [c1, c2]"
    by (rule clampByte_real)
  then have "clampByte (real (parseInt16 [c1, c2])) = 16 * digitVal c1 + digitVal c2"
    by (simp only: parseInt16_two)
  with lt show ?thesis by (simp add: channelHex_eq)
qed

lemma six_chars:
  assumes "length ds = 6"
  obtains c1 c2 c3 c4 c5 c6 where "ds = [c1, c2, c3, c4, c5, c6]"
proof -
  from assms have "ds = [ds ! 0, ds ! 1, ds ! 2, ds ! 3, ds ! 4, ds ! 5]"
    by (auto simp add: list_eq_iff_nth_eq less_Suc_eq numeral_eq_Suc)
  then show thesis by (rule that)
qed

lemma hexMatch_hash:
  "hexMatch (CHR ''#'' # [c1, c2, c3, c4, c5, c6]) =
     (if list_all isHexDigit [c1, c2, c3, c4, c5, c6] then Some ([c1, c2], [c3, c4], [c5, c6]) else None)"
  by (simp add: hexMatch_def Let_def)

lemma rgbToHex_hexToRgb:
  assumes "list_all isHexDigit [c1, c2, c3, c4, c5, c6]"
  shows "rgbToHex (hexToRgb (CHR ''#'' # [c1, c2, c3, c4, c5, c6])) =
    CHR ''#'' # map (\<lambda>c. hexChar (digitVal c)) [c1, c2, c3, c4, c5, c6]"
  using assms by (simp add: hexToRgb_def hexMatch_hash rgbToHex_def channelHex_parse)

lemma blend_one_lower_hex:
  assumes "a = CHR ''#'' # ds" "length ds = 6" "set ds \<subseteq> set ''0123456789abcdef''"
  shows "blend b a 1 = a"
proof -
  from assms(2) obtain c1 c2 c3 c4 c5 c6 where ds: "ds = [c1, c2, c3, c4, c5, c6]"
    by (rule six_chars)
  from assms(3) have low: "\<forall>c\<in>set ds. c \<in> set ''0123456789abcdef''" by blast
  then have "list_all isHexDigit ds" by (simp add: list_all_iff lower_isHexDigit)
  then have "rgbToHex (hexToRgb (CHR ''#'' # ds)) = CHR ''#'' # map (\<lambda>c. hexChar (digitVal c)) ds"
    unfolding ds by (rule rgbToHex_hexToRgb)
  also from low have "map (\<lambda>c. hexChar (digitVal c)) ds = ds"
    by (intro map_idI) (simp add: hexChar_digitVal)
  finally show ?thesis by (simp add: blend_one assms(1))
qed


lemma hexToRgb_rgbToHex:
  "hexToRgb (rgbToHex c) =
     \<lparr>rgb_r = real (clampByte (rgb_r c)), rgb_g = real (clampByte (rgb_g c)),
      rgb_b = real (clampByte (rgb_b c))\<rparr>"
proof -
  have d: "list_all isHexDigit
      [hexChar (clampByte (rgb_r c) div 16), hexChar (clampByte (rgb_r c) mod 16),
       hexChar (clampByte (rgb_g c) div 16), hexChar (clampByte (rgb_g c) mod 16),
       hexChar (clampByte (rgb_b c) div 16), hexChar (clampByte (rgb_b c) mod 16)]"
    by (simp add: hexChar_isHexDigit clampByte_hi)
  have "rgbToHex c = CHR ''#'' #
      [hexChar (clampByte (rgb_r c) div 16), hexChar (clampByte (rgb_r c) mod 16),
       hexChar (clampByte (rgb_g c) div 16), hexChar (clampByte (rgb_g c) mod 16),
       hexChar (clampByte (rgb_b c) div 16), hexChar (clampByte (rgb_b c) mod 16)]"
    by (simp add: rgbToHex_def channelHex_eq)
  then show ?thesis
    using d by (simp only: hexToRgb_def hexMatch_hash if_True option.case prod.case parseInt16_channel)
qed

lemma hexToRgb_bytes:
  "\<exists>n1 n2 n3. n1 < 256 \<and> n2 < 256 \<and> n3 < 256
     \<and> hexToRgb a = \<lparr>rgb_r = real n1, rgb_g = real n2, rgb_b = real n3\<rparr>"
proof (cases "hexMatch a")
  case None
  then have "hexToRgb a = \<lparr>rgb_r = real 0, rgb_g = real 0, rgb_b = real 0\<rparr>"
    by (simp add: hexToRgb_def)
  then show ?thesis by (intro exI [of _ 0]) simp
next
  case (Some m)
  obtain m1 m2 m3 where m: "m = (m1, m2, m3)" by (cases m)
  define body where "body = (case a of c # cs \<Rightarrow> if c = CHR ''#'' then cs else a | [] \<Rightarrow> a)"
  from Some m have b: "length body = 6" "list_all isHexDigit body"
    and ms: "m1 = take 2 body" "m2 = take 2 (drop 2 body)" "m3 = drop 4 body"
    by (auto simp add: hexMatch_def Let_def body_def split: if_splits)
  from b(1) obtain c1 c2 c3 c4 c5 c6 where body: "body = [c1, c2, c3, c4, c5, c6]"
    by (rule six_chars)
  from b(2) have hex: "isHexDigit c1" "isHexDigit c2" "isHexDigit c3" "isHexDigit c4"
    "isHexDigit c5" "isHexDigit c6" by (simp_all add: body)
  have lt: "parseInt16 m1 < 256" "parseInt16 m2 < 256" "parseInt16 m3 < 256"
    using hex [THEN digitVal_lt] by (simp_all add: ms body parseInt16_two)
  have "hexToRgb a = \<lparr>rgb_r = real (parseInt16 m1), rgb_g = real (parseInt16 m2),
      rgb_b = real (parseInt16 m3)\<rparr>"
    by (simp add: hexToRgb_def Some m)
  with lt show ?thesis by blast
qed

lemma blend_one_same_colour: "hexToRgb (blend b a 1) = hexToRgb a"
proof -
  from hexToRgb_bytes [of a] obtain n1 n2 n3 where n: "n1 < 256" "n2 < 256" "n3 < 256"
    "hexToRgb a = \<lparr>rgb_r = real n1, rgb_g = real n2, rgb_b = real n3\<rparr>"
    by blast
  then show ?thesis by (simp add: blend_one hexToRgb_rgbToHex clampByte_real)
qed


lemmas render_defs = DotGridHero_def DotGridHero_plain_def gridCalc_def gridRow_def hoveredDot_def
  pointerDist_def hypot_def activeSet_def hoverCount_def set_add_def circleTrail_def circlePlain_def
  isHoverActive_def hoverScale_def intensityOf_def baseRadiusOf_def getTrailLevel_def
  defaultProps_def initialClock_def Let_def upto.simps enumerate_eq_zip


lemma getTrailLevel_off: "\<not> trailEnabled p \<Longrightarrow> getTrailLevel p m nowv i = 0"
  by (simp add: getTrailLevel_def)

lemma circleTrail_inactive:
  assumes "\<not> trailEnabled p" "\<not> isHoverActive hover aset hovered i"
  shows "circle_r (circleTrail p hover aset hovered m nowv (i, d)) = baseRadiusOf p"
    and "circle_fill (circleTrail p hover aset hovered m nowv (i, d)) = baseColor p"
  using assms by (cases hovered; simp add: circleTrail_def Let_def getTrailLevel_off)+

lemma circlePlain_inactive:
  assumes "\<not> isHoverActive hover aset hovered i"
  shows "circle_r (circlePlain p hover aset hovered (i, d)) = baseRadiusOf p"
    and "circle_fill (circlePlain p hover aset hovered (i, d)) = baseColor p"
  using assms by (cases hovered; simp add: circlePlain_def Let_def)+

lemma circle_centre:
  "circle_cx (circleTrail p hover aset hovered m nowv (i, d)) = dot_x d"
  "circle_cy (circleTrail p hover aset hovered m nowv (i, d)) = dot_y d"
  "circle_cx (circlePlain p hover aset hovered (i, d)) = dot_x d"
  "circle_cy (circlePlain p hover aset hovered (i, d)) = dot_y d"
  by (simp_all add: circleTrail_def circlePlain_def Let_def split: prod.split)

lemma circle_geometry_agree:
  assumes off: "\<not> trailEnabled p"
  shows "(\<lambda>c. (circle_cx c, circle_cy c, circle_r c)) (circleTrail p hover aset hovered m nowv e)
       = (\<lambda>c. (circle_cx c, circle_cy c, circle_r c)) (circlePlain p hover aset hovered e)"
proof -
  obtain i d where e: "e = (i, d)" by (cases e)
  have "circle_r (circleTrail p hover aset hovered m nowv (i, d))
      = circle_r (circlePlain p hover aset hovered (i, d))"
  proof (cases "isHoverActive hover aset hovered i")
    case True
    then obtain hov where h: "hovered = Some hov" by (auto simp add: isHoverActive_def)
    from True show ?thesis unfolding h by (simp add: circleTrail_active circlePlain_active)
  next
    case False
    with off show ?thesis by (simp add: circleTrail_inactive circlePlain_inactive)
  qed
  then show ?thesis by (simp add: e circle_centre)
qed

lemma circle_fill_agree:
  assumes off: "\<not> trailEnabled p"
    and same: "isHoverActive hover aset hovered i \<Longrightarrow> blend (baseColor p) (activeColor p) 1 = activeColor p"
  shows "circle_fill (circleTrail p hover aset hovered m nowv (i, d))
       = circle_fill (circlePlain p hover aset hovered (i, d))"
proof (cases "isHoverActive hover aset hovered i")
  case True
  then obtain hov where h: "hovered = Some hov" by (auto simp add: isHoverActive_def)
  from True same show ?thesis unfolding h by (simp add: circleTrail_active circlePlain_active)
next
  case False
  with off show ?thesis by (simp add: circleTrail_inactive circlePlain_inactive)
qed

lemma geometry_agree:
  assumes off: "\<not> trailEnabled p"
  shows "map_option (map (\<lambda>c. (circle_cx c, circle_cy c, circle_r c))) (DotGridHero p sz hover c)
       = map_option (map (\<lambda>c. (circle_cx c, circle_cy c, circle_r c))) (DotGridHero_plain p sz hover)"
  by (cases "gridCalc p sz")
    (simp_all add: DotGridHero_def DotGridHero_plain_def Let_def circle_geometry_agree [OF off])

lemma fill_agree:
  assumes off: "\<not> trailEnabled p"
    and same: "hover \<noteq> None \<Longrightarrow> blend (baseColor p) (activeColor p) 1 = activeColor p"
  shows "map_option (map circle_fill) (DotGridHero p sz hover c)
       = map_option (map circle_fill) (DotGridHero_plain p sz hover)"
proof (cases "gridCalc p sz")
  case None
  then show ?thesis by (simp add: DotGridHero_def DotGridHero_plain_def)
next
  case (Some L)
  have "\<And>aset hovered m nowv e.
      circle_fill (circleTrail p hover aset hovered m nowv e) = circle_fill (circlePlain p hover aset hovered e)"
  proof -
    fix aset hovered m nowv and e :: "nat \<times> dot"
    obtain i d where e: "e = (i, d)" by (cases e)
    have "isHoverActive hover aset hovered i \<Longrightarrow> blend (baseColor p) (activeColor p) 1 = activeColor p"
      using same by (simp add: isHoverActive_def)
    with off show "circle_fill (circleTrail p hover aset hovered m nowv e)
        = circle_fill (circlePlain p hover aset hovered e)"
      unfolding e by (rule circle_fill_agree)
  qed
  with Some show ?thesis by (simp add: DotGridHero_def DotGridHero_plain_def Let_def)
qed


text \<open>
  Claim C6, as stated, fails for the variant with trailing: it draws a dot of the cluster
  with \<open>blend baseColor activeColor 1\<close>, which goes through the hexadecimal parser. With
  \<open>activeColor = "rgb(255, 255, 255)"\<close> the one dot of a zero-size container, under the
  pointer and in the cluster, is filled \<open>#000000\<close>.
\<close>

theorem cluster_fill_counterexample:
  "hoveredDot (Some (0, 0)) [\<lparr>dot_x = 0, dot_y = 0, dot_col = 0, dot_row = 0\<rparr>]
      = Some \<lparr>dot_x = 0, dot_y = 0, dot_col = 0, dot_row = 0\<rparr>
   \<and> activeSet (defaultProps\<lparr>activeColor := ''rgb(255, 255, 255)''\<rparr>)
        (Some \<lparr>dot_x = 0, dot_y = 0, dot_col = 0, dot_row = 0\<rparr>) 1 1 = [0]
   \<and> DotGridHero (defaultProps\<lparr>activeColor := ''rgb(255, 255, 255)''\<rparr>)
        \<lparr>width = 0, height = 0\<rparr> (Some (0, 0)) initialClock
      = Some [\<lparr>circle_cx = 0, circle_cy = 0, circle_r = 156 / 10, circle_fill = ''#000000'',
               circle_transition =
                 ''r 0.18s cubic-bezier(.4,1.2,.4,1), fill 0.14s cubic-bezier(.4,1.2,.4,1)'',
               circle_willChange = Some ''r, fill''\<rparr>]
   \<and> ''#000000'' \<noteq> activeColor (defaultProps\<lparr>activeColor := ''rgb(255, 255, 255)''\<rparr>)"
proof (intro conjI)
  show "hoveredDot (Some (0, 0)) [\<lparr>dot_x = 0, dot_y = 0, dot_col = 0, dot_row = 0\<rparr>]
      = Some \<lparr>dot_x = 0, dot_y = 0, dot_col = 0, dot_row = 0\<rparr>"
    by (simp add: render_defs)
  show "activeSet (defaultProps\<lparr>activeColor := ''rgb(255, 255, 255)''\<rparr>)
        (Some \<lparr>dot_x = 0, dot_y = 0, dot_col = 0, dot_row = 0\<rparr>) 1 1 = [0]"
    by (simp add: render_defs)
  have "blend ''#5227FF'' ''rgb(255, 255, 255)'' 1 = ''#000000''" by code_simp
  then show "DotGridHero (defaultProps\<lparr>activeColor := ''rgb(255, 255, 255)''\<rparr>)
        \<lparr>width = 0, height = 0\<rparr> (Some (0, 0)) initialClock
      = Some [\<lparr>circle_cx = 0, circle_cy = 0, circle_r = 156 / 10, circle_fill = ''#000000'',
               circle_transition =
                 ''r 0.18s cubic-bezier(.4,1.2,.4,1), fill 0.14s cubic-bezier(.4,1.2,.4,1)'',
               circle_willChange = Some ''r, fill''\<rparr>]"
    by (simp add: render_defs)
  show "''#000000'' \<noteq> activeColor (defaultProps\<lparr>activeColor := ''rgb(255, 255, 255)''\<rparr>)"
    by simp
qed

text \<open>
  Claim C6, amended. Whenever the pointer is present, a dot of the active cluster gets a
  fill that does not depend on its grid distance: the variant without trailing fills it
  with \<open>activeColor\<close> itself; the variant with trailing has level exactly 1 and fills it
  with \<open>blend baseColor activeColor 1\<close>, which for an \<open>activeColor\<close> of six hexadecimal
  digits is the same colour, and the same string when \<open>activeColor\<close> is \<open>#\<close> and six
  lower-case hexadecimal digits.
\<close>

theorem cluster_fill_active_colour:
  assumes present: "hover \<noteq> None" and member: "int i \<in> set aset"
  shows "circle_fill (circlePlain p hover aset (Some hov) (i, d)) = activeColor p
    \<and> circle_fill (circleTrail p hover aset (Some hov) m nowv (i, d))
        = blend (baseColor p) (activeColor p) 1
    \<and> (hexMatch (activeColor p) \<noteq> None \<longrightarrow>
        hexToRgb (circle_fill (circleTrail p hover aset (Some hov) m nowv (i, d)))
          = hexToRgb (activeColor p))
    \<and> ((\<exists>ds. activeColor p = CHR ''#'' # ds \<and> length ds = 6
              \<and> set ds \<subseteq> set ''0123456789abcdef'') \<longrightarrow>
        circle_fill (circleTrail p hover aset (Some hov) m nowv (i, d)) = activeColor p)"
proof -
  from present member have act: "isHoverActive hover aset (Some hov) i"
    by (simp add: isHoverActive_def)
  have plain: "circle_fill (circlePlain p hover aset (Some hov) (i, d)) = activeColor p"
    using act by (rule circlePlain_active)
  have trail: "circle_fill (circleTrail p hover aset (Some hov) m nowv (i, d))
        = blend (baseColor p) (activeColor p) 1"
    using act by (rule circleTrail_active)
  have colour: "hexToRgb (circle_fill (circleTrail p hover aset (Some hov) m nowv (i, d)))
          = hexToRgb (activeColor p)"
    by (simp only: trail blend_one_same_colour)
  have lower: "(\<exists>ds. activeColor p = CHR ''#'' # ds \<and> length ds = 6
              \<and> set ds \<subseteq> set ''0123456789abcdef'') \<longrightarrow>
        circle_fill (circleTrail p hover aset (Some hov) m nowv (i, d)) = activeColor p"
    unfolding trail by (blast intro: blend_one_lower_hex)
  from plain trail colour lower show ?thesis by blast
qed

theorem cluster_fill_active_colour_witness:
  "circle_fill (circlePlain defaultProps (Some (0, 0)) [0]
      (Some \<lparr>dot_x = 0, dot_y = 0, dot_col = 0, dot_row = 0\<rparr>)
      (0, \<lparr>dot_x = 0, dot_y = 0, dot_col = 0, dot_row = 0\<rparr>)) = ''#FFFFFF''
   \<and> circle_fill (circleTrail defaultProps (Some (0, 0)) [0]
      (Some \<lparr>dot_x = 0, dot_y = 0, dot_col = 0, dot_row = 0\<rparr>) [] 0
      (0, \<lparr>dot_x = 0, dot_y = 0, dot_col = 0, dot_row = 0\<rparr>)) = ''#ffffff''
   \<and> hexToRgb ''#ffffff'' = hexToRgb ''#FFFFFF''
   \<and> circle_fill (circleTrail (defaultProps\<lparr>activeColor := ''#ffffff''\<rparr>) (Some (0, 0)) [0]
      (Some \<lparr>dot_x = 0, dot_y = 0, dot_col = 0, dot_row = 0\<rparr>) [] 0
      (0, \<lparr>dot_x = 0, dot_y = 0, dot_col = 0, dot_row = 0\<rparr>)) = ''#ffffff''"
proof -
  let ?d = "\<lparr>dot_x = 0, dot_y = 0, dot_col = 0, dot_row = 0\<rparr>"
  have pre: "Some (0::real, 0::real) \<noteq> None" "int 0 \<in> set [0]" by simp_all
  have b: "blend ''#5227FF'' ''#FFFFFF'' 1 = ''#ffffff''" by code_simp
  have low: "\<exists>ds. activeColor (defaultProps\<lparr>activeColor := ''#ffffff''\<rparr>) = CHR ''#'' # ds
      \<and> length ds = 6 \<and> set ds \<subseteq> set ''0123456789abcdef''"
    by simp
  have cols: "activeColor defaultProps = ''#FFFFFF''" "baseColor defaultProps = ''#5227FF''"
    by (simp_all add: defaultProps_def)
  note T = cluster_fill_active_colour [OF pre, where p = defaultProps and hov = ?d and d = ?d
      and m = "[]" and nowv = 0, unfolded cols b]
  have hm': "hexMatch ''#FFFFFF'' \<noteq> None" by (simp add: hexMatch_def isHexDigit_def)
  from T hm'
  have f1: "circle_fill (circlePlain defaultProps (Some (0, 0)) [0] (Some ?d) (0, ?d)) = ''#FFFFFF''"
    and f2: "circle_fill (circleTrail defaultProps (Some (0, 0)) [0] (Some ?d) [] 0 (0, ?d)) = ''#ffffff''"
    and f3: "hexToRgb (circle_fill (circleTrail defaultProps (Some (0, 0)) [0] (Some ?d) [] 0 (0, ?d)))
        = hexToRgb ''#FFFFFF''"
    by blast+
  from f3 have "hexToRgb ''#ffffff'' = hexToRgb ''#FFFFFF''" by (simp only: f2)
  note f1 f2 this
  moreover have "circle_fill (circleTrail (defaultProps\<lparr>activeColor := ''#ffffff''\<rparr>) (Some (0, 0)) [0]
      (Some ?d) [] 0 (0, ?d)) = ''#ffffff''"
  proof -
    from cluster_fill_active_colour [OF pre, where p = "defaultProps\<lparr>activeColor := ''#ffffff''\<rparr>"
      and hov = ?d and d = ?d and m = "[]" and nowv = 0] low
    have "circle_fill (circleTrail (defaultProps\<lparr>activeColor := ''#ffffff''\<rparr>) (Some (0, 0)) [0]
      (Some ?d) [] 0 (0, ?d)) = activeColor (defaultProps\<lparr>activeColor := ''#ffffff''\<rparr>)"
      by blast
    then show ?thesis by simp
  qed
  ultimately show ?thesis by blast
qed


text \<open>
  Claim C9, as stated, fails: with \<open>trailEnabled = false\<close> and
  \<open>activeColor = "rgb(255, 255, 255)"\<close>, on a container 64 wide (two dots) with the pointer
  on the second dot, the variant with trailing fills both dots of the cluster \<open>#000000\<close>
  and the variant without trailing fills them \<open>rgb(255, 255, 255)\<close>.
\<close>

theorem variants_fill_counterexample:
  "trailEnabled (defaultProps\<lparr>activeColor := ''rgb(255, 255, 255)''\<rparr>) = False
   \<and> map_option (map circle_fill)
       (DotGridHero (defaultProps\<lparr>activeColor := ''rgb(255, 255, 255)''\<rparr>)
          \<lparr>width = 64, height = 0\<rparr> (Some (56, 0)) initialClock)
       = Some [''#000000'', ''#000000'']
   \<and> map_option (map circle_fill)
       (DotGridHero_plain (defaultProps\<lparr>activeColor := ''rgb(255, 255, 255)''\<rparr>)
          \<lparr>width = 64, height = 0\<rparr> (Some (56, 0)))
       = Some [''rgb(255, 255, 255)'', ''rgb(255, 255, 255)'']"
proof (intro conjI)
  show "trailEnabled (defaultProps\<lparr>activeColor := ''rgb(255, 255, 255)''\<rparr>) = False"
    by (simp add: defaultProps_def)
  have "blend ''#5227FF'' ''rgb(255, 255, 255)'' 1 = ''#000000''" by code_simp
  then show "map_option (map circle_fill)
       (DotGridHero (defaultProps\<lparr>activeColor := ''rgb(255, 255, 255)''\<rparr>)
          \<lparr>width = 64, height = 0\<rparr> (Some (56, 0)) initialClock)
       = Some [''#000000'', ''#000000'']"
    by (simp add: render_defs)
  show "map_option (map circle_fill)
       (DotGridHero_plain (defaultProps\<lparr>activeColor := ''rgb(255, 255, 255)''\<rparr>)
          \<lparr>width = 64, height = 0\<rparr> (Some (56, 0)))
       = Some [''rgb(255, 255, 255)'', ''rgb(255, 255, 255)'']"
    by (simp add: render_defs)
qed

text \<open>
  Claim C9, amended. With \<open>trailEnabled = false\<close>, for every configuration, container
  size, pointer state and clock state, the two variants emit the same dots in the same
  order with the same centres and radii, and the same fill for every dot that is not
  hover-active, so the same centres, radii and fills whenever the pointer is absent.
  For a hover-active dot the variant without trailing emits \<open>activeColor\<close> and the variant
  with trailing \<open>blend baseColor activeColor 1\<close>; centres, radii and fills are all the same
  when \<open>activeColor\<close> is \<open>#\<close> and six lower-case hexadecimal digits.
\<close>

theorem variants_agree_without_trail:
  assumes off: "\<not> trailEnabled p"
  shows "map_option (map (\<lambda>c. (circle_cx c, circle_cy c, circle_r c))) (DotGridHero p sz hover c)
       = map_option (map (\<lambda>c. (circle_cx c, circle_cy c, circle_r c))) (DotGridHero_plain p sz hover)
    \<and> (hover = None \<longrightarrow>
         map_option (map circle_fill) (DotGridHero p sz hover c)
           = map_option (map circle_fill) (DotGridHero_plain p sz hover))
    \<and> ((\<exists>ds. activeColor p = CHR ''#'' # ds \<and> length ds = 6
              \<and> set ds \<subseteq> set ''0123456789abcdef'') \<longrightarrow>
         map_option (map circle_fill) (DotGridHero p sz hover c)
           = map_option (map circle_fill) (DotGridHero_plain p sz hover))
    \<and> (\<not> isHoverActive hover aset hovered i \<longrightarrow>
         circle_fill (circleTrail p hover aset hovered m nowv (i, d))
           = circle_fill (circlePlain p hover aset hovered (i, d)))
    \<and> (isHoverActive hover aset (Some hov) i \<longrightarrow>
         circle_fill (circleTrail p hover aset (Some hov) m nowv (i, d))
           = blend (baseColor p) (activeColor p) 1
         \<and> circle_fill (circlePlain p hover aset (Some hov) (i, d)) = activeColor p)"
proof (intro conjI impI)
  show "map_option (map (\<lambda>c. (circle_cx c, circle_cy c, circle_r c))) (DotGridHero p sz hover c)
       = map_option (map (\<lambda>c. (circle_cx c, circle_cy c, circle_r c))) (DotGridHero_plain p sz hover)"
    using off by (rule geometry_agree)
next
  assume "hover = None"
  with off show "map_option (map circle_fill) (DotGridHero p sz hover c)
           = map_option (map circle_fill) (DotGridHero_plain p sz hover)"
    by (intro fill_agree) simp_all
next
  assume "\<exists>ds. activeColor p = CHR ''#'' # ds \<and> length ds = 6
              \<and> set ds \<subseteq> set ''0123456789abcdef''"
  then have "blend (baseColor p) (activeColor p) 1 = activeColor p"
    by (blast intro: blend_one_lower_hex)
  with off show "map_option (map circle_fill) (DotGridHero p sz hover c)
           = map_option (map circle_fill) (DotGridHero_plain p sz hover)"
    by (intro fill_agree) simp_all
next
  assume "\<not> isHoverActive hover aset hovered i"
  with off show "circle_fill (circleTrail p hover aset hovered m nowv (i, d))
           = circle_fill (circlePlain p hover aset hovered (i, d))"
    by (intro circle_fill_agree) simp_all
next
  assume act: "isHoverActive hover aset (Some hov) i"
  then show "circle_fill (circleTrail p hover aset (Some hov) m nowv (i, d))
           = blend (baseColor p) (activeColor p) 1"
    by (rule circleTrail_active)
  from act show "circle_fill (circlePlain p hover aset (Some hov) (i, d)) = activeColor p"
    by (rule circlePlain_active)
qed


theorem variants_agree_without_trail_witness:
  "map_option (map (\<lambda>c. (circle_cx c, circle_cy c, circle_r c)))
       (DotGridHero defaultProps \<lparr>width = 64, height = 0\<rparr> (Some (56, 0)) initialClock)
     = Some [(8, 0, 118 / 10), (56, 0, 156 / 10)]
   \<and> map_option (map (\<lambda>c. (circle_cx c, circle_cy c, circle_r c)))
       (DotGridHero_plain defaultProps \<lparr>width = 64, height = 0\<rparr> (Some (56, 0)))
     = Some [(8, 0, 118 / 10), (56, 0, 156 / 10)]
   \<and> map_option (map circle_fill)
       (DotGridHero defaultProps \<lparr>width = 64, height = 0\<rparr> None initialClock)
     = Some [''#5227FF'', ''#5227FF'']
   \<and> map_option (map circle_fill)
       (DotGridHero_plain defaultProps \<lparr>width = 64, height = 0\<rparr> None)
     = Some [''#5227FF'', ''#5227FF'']
   \<and> map_option (map circle_fill)
       (DotGridHero (defaultProps\<lparr>activeColor := ''#ffffff''\<rparr>) \<lparr>width = 64, height = 0\<rparr>
          (Some (56, 0)) initialClock)
     = Some [''#ffffff'', ''#ffffff'']
   \<and> map_option (map circle_fill)
       (DotGridHero_plain (defaultProps\<lparr>activeColor := ''#ffffff''\<rparr>) \<lparr>width = 64, height = 0\<rparr>
          (Some (56, 0)))
     = Some [''#ffffff'', ''#ffffff'']"
proof -
  let ?sz = "\<lparr>width = 64, height = 0\<rparr>"
  let ?q = "defaultProps\<lparr>activeColor := ''#ffffff''\<rparr>"
  have off: "\<not> trailEnabled defaultProps" "\<not> trailEnabled ?q"
    by (simp_all add: defaultProps_def)
  have low: "\<exists>ds. activeColor ?q = CHR ''#'' # ds \<and> length ds = 6
      \<and> set ds \<subseteq> set ''0123456789abcdef''"
    by simp
  have g: "map_option (map (\<lambda>c. (circle_cx c, circle_cy c, circle_r c)))
       (DotGridHero_plain defaultProps ?sz (Some (56, 0))) = Some [(8, 0, 118 / 10), (56, 0, 156 / 10)]"
    by (simp add: render_defs)
  have f0: "map_option (map circle_fill) (DotGridHero_plain defaultProps ?sz None)
      = Some [''#5227FF'', ''#5227FF'']"
    by (simp add: render_defs)
  have f1: "map_option (map circle_fill) (DotGridHero_plain ?q ?sz (Some (56, 0)))
      = Some [''#ffffff'', ''#ffffff'']"
    by (simp add: render_defs)
  note A = variants_agree_without_trail [OF off(1), where sz = ?sz and hover = "Some (56, 0)"
      and c = initialClock]
  note B = variants_agree_without_trail [OF off(1), where sz = ?sz and hover = None
      and c = initialClock]
  note C = variants_agree_without_trail [OF off(2), where sz = ?sz and hover = "Some (56, 0)"
      and c = initialClock]
  from A have "map_option (map (\<lambda>c. (circle_cx c, circle_cy c, circle_r c)))
       (DotGridHero defaultProps ?sz (Some (56, 0)) initialClock)
     = map_option (map (\<lambda>c. (circle_cx c, circle_cy c, circle_r c)))
       (DotGridHero_plain defaultProps ?sz (Some (56, 0)))"
    by blast
  moreover from B have "map_option (map circle_fill) (DotGridHero defaultProps ?sz None initialClock)
      = map_option (map circle_fill) (DotGridHero_plain defaultProps ?sz None)"
    by blast
  moreover from C low have "map_option (map circle_fill) (DotGridHero ?q ?sz (Some (56, 0)) initialClock)
      = map_option (map circle_fill) (DotGridHero_plain ?q ?sz (Some (56, 0)))"
    by blast
  ultimately show ?thesis by (simp only: g f0 f1 simp_thms)
qed

section \<open>The property \<open>hoverSquareRadius\<close> is never read\<close>

lemma hoverCount_hsr: "hoverCount (p\<lparr>hoverSquareRadius := v\<rparr>) = hoverCount p"
  by (simp add: hoverCount_def)

lemma baseRadiusOf_hsr: "baseRadiusOf (p\<lparr>hoverSquareRadius := v\<rparr>) = baseRadiusOf p"
  by (simp add: baseRadiusOf_def split: option.split)

lemma intensityOf_hsr: "intensityOf (p\<lparr>hoverSquareRadius := v\<rparr>) = intensityOf p"
  by (simp add: intensityOf_def)

lemma gridCalc_hsr: "gridCalc (p\<lparr>hoverSquareRadius := v\<rparr>) sz = gridCalc p sz"
  by (simp add: gridCalc_def Let_def)

lemma activeSet_hsr: "activeSet (p\<lparr>hoverSquareRadius := v\<rparr>) h nc nr = activeSet p h nc nr"
  by (simp add: activeSet_def hoverCount_hsr Let_def split: option.split)

lemma hoverScale_hsr: "hoverScale (p\<lparr>hoverSquareRadius := v\<rparr>) d h = hoverScale p d h"
  by (simp add: hoverScale_def hoverCount_hsr intensityOf_hsr)

lemma circlePlain_hsr:
  "circlePlain (p\<lparr>hoverSquareRadius := v\<rparr>) hover aset h = circlePlain p hover aset h"
  by (simp add: circlePlain_def hoverScale_hsr baseRadiusOf_hsr Let_def
      cong: option.case_cong prod.case_cong if_cong)

lemma getTrailLevel_hsr:
  "getTrailLevel (p\<lparr>hoverSquareRadius := v\<rparr>) m t i = getTrailLevel p m t i"
  by (simp add: getTrailLevel_def Let_def split: option.split)

lemma circleTrail_hsr:
  "circleTrail (p\<lparr>hoverSquareRadius := v\<rparr>) hover aset h m t = circleTrail p hover aset h m t"
  by (simp add: circleTrail_def hoverScale_hsr baseRadiusOf_hsr getTrailLevel_hsr
      intensityOf_hsr Let_def cong: option.case_cong prod.case_cong if_cong)

lemma evict_hsr: "evict (p\<lparr>hoverSquareRadius := v\<rparr>) t m = evict p t m"
  by (simp add: evict_def)

text \<open>
  Claim C10. Two runs whose properties differ only in \<open>hoverSquareRadius\<close> (any value, or
  none) emit the same circles, in both variants, and the trail clock and its effects
  move to the same states: the property is accepted and never read; the cluster size
  comes from \<open>hoverDotCount\<close> alone.
\<close>

theorem hoverSquareRadius_never_read:
  "DotGridHero (p\<lparr>hoverSquareRadius := v\<rparr>) sz hover c
     = DotGridHero (p\<lparr>hoverSquareRadius := w\<rparr>) sz hover c
   \<and> DotGridHero_plain (p\<lparr>hoverSquareRadius := v\<rparr>) sz hover
     = DotGridHero_plain (p\<lparr>hoverSquareRadius := w\<rparr>) sz hover
   \<and> tick mounted (p\<lparr>hoverSquareRadius := v\<rparr>) hover t c
     = tick mounted (p\<lparr>hoverSquareRadius := w\<rparr>) hover t c
   \<and> hitEffect (p\<lparr>hoverSquareRadius := v\<rparr>) hover aset t c
     = hitEffect (p\<lparr>hoverSquareRadius := w\<rparr>) hover aset t c
   \<and> clearEffect (p\<lparr>hoverSquareRadius := v\<rparr>) c
     = clearEffect (p\<lparr>hoverSquareRadius := w\<rparr>) c
   \<and> clockEffect isStatic (p\<lparr>hoverSquareRadius := v\<rparr>) hover c
     = clockEffect isStatic (p\<lparr>hoverSquareRadius := w\<rparr>) hover c"
  by (simp add: DotGridHero_def DotGridHero_plain_def gridCalc_hsr activeSet_hsr
      circlePlain_hsr circleTrail_hsr tick_def evict_hsr hitEffect_def clearEffect_def
      clockEffect_def Let_def cong: option.case_cong)

theorem hoverSquareRadius_never_read_witness:
  "DotGridHero (defaultProps\<lparr>hoverSquareRadius := Some 1\<rparr>)
       \<lparr>width = 400, height = 400\<rparr> (Some (200, 200)) initialClock
     = DotGridHero (defaultProps\<lparr>hoverSquareRadius := Some 5\<rparr>)
       \<lparr>width = 400, height = 400\<rparr> (Some (200, 200)) initialClock
   \<and> DotGridHero_plain (defaultProps\<lparr>hoverSquareRadius := Some 1\<rparr>)
       \<lparr>width = 400, height = 400\<rparr> (Some (200, 200))
     = DotGridHero_plain (defaultProps\<lparr>hoverSquareRadius := None\<rparr>)
       \<lparr>width = 400, height = 400\<rparr> (Some (200, 200))"
  using hoverSquareRadius_never_read [where p = defaultProps and v = "Some 1" and w = "Some 5"
      and sz = "\<lparr>width = 400, height = 400\<rparr>" and hover = "Some (200, 200)"
      and c = initialClock]
    hoverSquareRadius_never_read [where p = defaultProps and v = "Some 1" and w = None
      and sz = "\<lparr>width = 400, height = 400\<rparr>" and hover = "Some (200, 200)"
      and c = initialClock]
  by blast

end
